theory Spec2Isabelle
  imports Main "HOL-Library.Word"
begin

unbundle bit_operations_syntax

section \<open>JavaScript strings and thrown values\<close>

text \<open>
  A JavaScript string is a sequence of 16-bit code units; \<open>charCodeAt\<close> reads one of
  them. An ASCII literal of the source is written \<open>js ''...''\<close>.
\<close>

type_synonym jsstring = "16 word list"

definition js :: "string \<Rightarrow> jsstring" where
  "js s = map of_char s"

text \<open>
  \<open>String.prototype.includes\<close>: the search string occurs as a contiguous run of code
  units.
\<close>

fun startsWith :: "jsstring \<Rightarrow> jsstring \<Rightarrow> bool" where
  "startsWith s [] = True"
| "startsWith [] (c # cs) = False"
| "startsWith (d # ds) (c # cs) = (d = c \<and> startsWith ds cs)"

fun includes_str :: "jsstring \<Rightarrow> jsstring \<Rightarrow> bool" where
  "includes_str [] sub = (sub = [])"
| "includes_str (d # ds) sub = (startsWith (d # ds) sub \<or> includes_str ds sub)"

text \<open>
  \<open>String.prototype.trim\<close> removes the code units of WhiteSpace and LineTerminator
  from both ends: TAB, LF, VT, FF, CR, SP, NBSP, U+1680, U+2000..U+200A, U+2028,
  U+2029, U+202F, U+205F, U+3000 and U+FEFF.
\<close>

definition isWhiteSpace :: "16 word \<Rightarrow> bool" where
  "isWhiteSpace c =
     (c = 0x0009 \<or> c = 0x000A \<or> c = 0x000B \<or> c = 0x000C \<or> c = 0x000D \<or> c = 0x0020 \<or>
      c = 0x00A0 \<or> c = 0x1680 \<or> (0x2000 \<le> c \<and> c \<le> 0x200A) \<or> c = 0x2028 \<or>
      c = 0x2029 \<or> c = 0x202F \<or> c = 0x205F \<or> c = 0x3000 \<or> c = 0xFEFF)"

definition trim :: "jsstring \<Rightarrow> jsstring" where
  "trim s = rev (dropWhile isWhiteSpace (rev (dropWhile isWhiteSpace s)))"

text \<open>\<open>a || b\<close> on a string that may be undefined: undefined and the empty string are falsy.\<close>

definition or_else :: "jsstring option \<Rightarrow> jsstring \<Rightarrow> jsstring" where
  "or_else a b = (case a of None \<Rightarrow> b | Some s \<Rightarrow> if s = [] then b else s)"

text \<open>
  A thrown value: an \<open>Error\<close> object with its message, or any other value (of which
  the code only ever asks \<open>instanceof Error\<close>).
\<close>

datatype js_error = Error (message: jsstring) | NonError nat

section \<open>Number formatting\<close>

text \<open>The digit characters of \<open>Number.prototype.toString(16)\<close>: \<open>0..9\<close>, \<open>a..f\<close>.\<close>

definition hexDigit :: "nat \<Rightarrow> 16 word" where
  "hexDigit d = (if d < 10 then of_nat (48 + d) else of_nat (87 + d))"

fun toString16 :: "nat \<Rightarrow> jsstring" where
  "toString16 n = (if n < 16 then [hexDigit n] else toString16 (n div 16) @ [hexDigit (n mod 16)])"

declare toString16.simps [simp del]

text \<open>\<open>s.padStart(n, c)\<close> for a one-character filler.\<close>

definition padStart :: "nat \<Rightarrow> 16 word \<Rightarrow> jsstring \<Rightarrow> jsstring" where
  "padStart n c s = (if n \<le> length s then s else replicate (n - length s) c @ s)"

section \<open>JSON.stringify on an object of string properties\<close>

text \<open>
  QuoteJSONString: the two-character escapes for backspace, tab, line feed, form feed,
  carriage return, the double quote and the backslash (a backslash, U+005C, then \<open>b t n f r\<close>, the
  quote or the backslash); a backslash, \<open>u\<close> and four lowercase
  hexadecimal digits for every other code unit below U+0020 and for a surrogate that is
  not part of a pair; every other code unit as it is.
\<close>

definition unicodeEscape :: "16 word \<Rightarrow> jsstring" where
  "unicodeEscape c = [0x5C, 0x75] @ padStart 4 0x30 (toString16 (unat c))"

definition isLeadingSurrogate :: "16 word \<Rightarrow> bool" where
  "isLeadingSurrogate c = (0xD800 \<le> c \<and> c \<le> 0xDBFF)"

definition isTrailingSurrogate :: "16 word \<Rightarrow> bool" where
  "isTrailingSurrogate c = (0xDC00 \<le> c \<and> c \<le> 0xDFFF)"

definition quoteUnit :: "16 word \<Rightarrow> jsstring" where
  "quoteUnit c =
     (if c = 0x08 then [0x5C, 0x62]
      else if c = 0x09 then [0x5C, 0x74]
      else if c = 0x0A then [0x5C, 0x6E]
      else if c = 0x0C then [0x5C, 0x66]
      else if c = 0x0D then [0x5C, 0x72]
      else if c = 0x22 then [0x5C, 0x22]
      else if c = 0x5C then [0x5C, 0x5C]
      else if c < 0x20 \<or> isLeadingSurrogate c \<or> isTrailingSurrogate c then unicodeEscape c
      else [c])"

fun quoteBody :: "jsstring \<Rightarrow> jsstring" where
  "quoteBody [] = []"
| "quoteBody [c] = quoteUnit c"
| "quoteBody (c # d # cs) =
     (if isLeadingSurrogate c \<and> isTrailingSurrogate d then c # d # quoteBody cs
      else quoteUnit c @ quoteBody (d # cs))"

definition quoteJSONString :: "jsstring \<Rightarrow> jsstring" where
  "quoteJSONString s = [0x22] @ quoteBody s @ [0x22]"

fun joinComma :: "jsstring list \<Rightarrow> jsstring" where
  "joinComma [] = []"
| "joinComma [x] = x"
| "joinComma (x # y # ys) = x @ js '','' @ joinComma (y # ys)"

definition JSON_stringify :: "(jsstring \<times> jsstring) list \<Rightarrow> jsstring" where
  "JSON_stringify obj =
     js ''{'' @ joinComma (map (\<lambda>(k, v). quoteJSONString k @ js '':'' @ quoteJSONString v) obj) @ js ''}''"

section \<open>gateway/version.ts\<close>

text \<open>
  The fields of \<open>MoltbotEnv\<close> that \<open>computeConfigHash\<close> reads; each may be undefined.
\<close>

record MoltbotEnv =
  MOLTBOT_GATEWAY_TOKEN :: "jsstring option"
  AI_GATEWAY_API_KEY :: "jsstring option"
  AI_GATEWAY_BASE_URL :: "jsstring option"
  ANTHROPIC_API_KEY :: "jsstring option"
  ANTHROPIC_BASE_URL :: "jsstring option"
  OPENAI_API_KEY :: "jsstring option"
  TELEGRAM_BOT_TOKEN :: "jsstring option"
  TELEGRAM_DM_POLICY :: "jsstring option"
  DISCORD_BOT_TOKEN :: "jsstring option"
  DISCORD_DM_POLICY :: "jsstring option"
  SLACK_BOT_TOKEN :: "jsstring option"
  SLACK_APP_TOKEN :: "jsstring option"
  DEV_MODE :: "jsstring option"
  CLAWDBOT_BIND_MODE :: "jsstring option"

text \<open>
  \<open>hash << 5\<close> converts to a signed 32-bit integer, shifts, and reads the result as
  signed; \<open>hash >>> 0\<close> converts to an unsigned 32-bit integer. The sum in between is
  a double, exact here since its magnitude stays below \<open>2^53\<close>.
\<close>

definition shl5 :: "int \<Rightarrow> int" where
  "shl5 h = sint (push_bit 5 (word_of_int h :: 32 word))"

definition toUint32 :: "int \<Rightarrow> int" where
  "toUint32 x = uint (word_of_int x :: 32 word)"

fun djb2Loop :: "int \<Rightarrow> jsstring \<Rightarrow> int" where
  "djb2Loop hash [] = hash"
| "djb2Loop hash (c # cs) = djb2Loop (toUint32 ((shl5 hash + hash) + uint c)) cs"

definition djb2Hash :: "jsstring \<Rightarrow> jsstring" where
  "djb2Hash str = padStart 8 0x30 (toString16 (nat (djb2Loop 5381 str)))"

definition relevantConfig :: "MoltbotEnv \<Rightarrow> (jsstring \<times> jsstring) list" where
  "relevantConfig env =
     [(js ''gatewayToken'', or_else (MOLTBOT_GATEWAY_TOKEN env) []),
      (js ''aiGatewayApiKey'', or_else (AI_GATEWAY_API_KEY env) []),
      (js ''aiGatewayBaseUrl'', or_else (AI_GATEWAY_BASE_URL env) []),
      (js ''anthropicApiKey'', or_else (ANTHROPIC_API_KEY env) []),
      (js ''anthropicBaseUrl'', or_else (ANTHROPIC_BASE_URL env) []),
      (js ''openaiApiKey'', or_else (OPENAI_API_KEY env) []),
      (js ''telegramToken'', or_else (TELEGRAM_BOT_TOKEN env) []),
      (js ''telegramPolicy'', or_else (TELEGRAM_DM_POLICY env) []),
      (js ''discordToken'', or_else (DISCORD_BOT_TOKEN env) []),
      (js ''discordPolicy'', or_else (DISCORD_DM_POLICY env) []),
      (js ''slackBotToken'', or_else (SLACK_BOT_TOKEN env) []),
      (js ''slackAppToken'', or_else (SLACK_APP_TOKEN env) []),
      (js ''devMode'', or_else (DEV_MODE env) []),
      (js ''bindMode'', or_else (CLAWDBOT_BIND_MODE env) [])]"

definition computeConfigHash :: "MoltbotEnv \<Rightarrow> jsstring" where
  "computeConfigHash env = (let configString = JSON_stringify (relevantConfig env) in djb2Hash configString)"

text \<open>
  The hash as the specification words it: seed 5381, multiply by 33 and add the character,
  folded to unsigned 32 bits; rendered as lowercase hexadecimal, zero-padded to a fixed
  number of characters.
\<close>

fun djb2_spec :: "nat \<Rightarrow> jsstring \<Rightarrow> nat" where
  "djb2_spec h [] = h"
| "djb2_spec h (c # cs) = djb2_spec ((h * 33 + unat c) mod 2 ^ 32) cs"

fun hex_fixed :: "nat \<Rightarrow> nat \<Rightarrow> jsstring" where
  "hex_fixed 0 n = []"
| "hex_fixed (Suc k) n = hex_fixed k (n div 16) @ [hexDigit (n mod 16)]"

definition lowerHexChars :: "16 word set" where
  "lowerHexChars = set (js ''0123456789abcdef'')"


section \<open>The sandbox and the modules process.ts imports\<close>

text \<open>
  \<open>Process\<close> and the result of \<open>getLogs\<close>, as far as the code reads them. The status is
  compared with string literals only, so it is kept as a string.
\<close>

record Process =
  proc_id :: jsstring
  command :: jsstring
  status :: jsstring

record Logs =
  stdout :: "jsstring option"
  stderr :: "jsstring option"

type_synonym envVars = "(jsstring \<times> jsstring) list"

text \<open>
  The sandbox is an external object: every method may change the sandbox (state \<open>'s\<close>)
  and may reject with any thrown value. \<open>sb_elapse\<close> is what happens in the sandbox
  while the caller sleeps on \<open>setTimeout\<close>. \<open>waitForPort\<close> is always called with
  \<open>mode: 'tcp'\<close>; its arguments here are the port and the timeout.
\<close>

record 's Sandbox =
  sb_listProcesses :: "'s \<Rightarrow> (js_error + Process list) \<times> 's"
  sb_startProcess :: "jsstring \<Rightarrow> envVars option \<Rightarrow> 's \<Rightarrow> (js_error + Process) \<times> 's"
  sb_kill :: "Process \<Rightarrow> 's \<Rightarrow> (js_error + unit) \<times> 's"
  sb_waitForPort :: "Process \<Rightarrow> nat \<Rightarrow> nat \<Rightarrow> 's \<Rightarrow> (js_error + unit) \<times> 's"
  sb_getLogs :: "Process \<Rightarrow> 's \<Rightarrow> (js_error + Logs) \<times> 's"
  sb_elapse :: "nat \<Rightarrow> 's \<Rightarrow> 's"

text \<open>
  Modelled from the spec: \<open>mountR2Storage\<close> (gateway/r2.ts), \<open>buildEnvVars\<close>
  (gateway/env.ts) and the constants \<open>MOLTBOT_PORT\<close> and \<open>STARTUP_TIMEOUT_MS\<close>
  (config.ts) are not among the source files. They are parameters: the mount is any
  change of the sandbox that does not reject ("best-effort, failures logged not
  propagated"), the environment builder any function of the configuration, the
  constants any numbers.
\<close>

record 's Imports =
  imp_mountR2Storage :: "MoltbotEnv \<Rightarrow> 's \<Rightarrow> 's"
  buildEnvVars :: "MoltbotEnv \<Rightarrow> envVars"
  MOLTBOT_PORT :: nat
  STARTUP_TIMEOUT_MS :: nat

text \<open>
  Every call that leaves the module is recorded, with its outcome, in a trace kept beside
  the sandbox state. Console output is not modelled.
\<close>

datatype event =
    MountR2Storage
  | ListProcesses "Process list option"
  | StartProcess jsstring "envVars option" "Process option"
  | Kill Process bool
  | WaitForPort Process nat nat bool
  | GetLogs Process bool
  | SetTimeout nat

record 's world =
  trace :: "event list"
  sbstate :: "'s"

text \<open>
  An async function: from the world to a rejection (\<open>Inl\<close>) or a value (\<open>Inr\<close>), and
  the world after it. \<open>await m f\<close> continues with \<open>f\<close> unless \<open>m\<close> rejects;
  \<open>try_catch m h\<close> runs the handler on a rejection.
\<close>

type_synonym ('s, 'a) promise = "'s world \<Rightarrow> (js_error + 'a) \<times> 's world"

definition ret :: "'a \<Rightarrow> ('s, 'a) promise" where
  "ret x w = (Inr x, w)"

definition throw :: "js_error \<Rightarrow> ('s, 'a) promise" where
  "throw e w = (Inl e, w)"

definition await :: "('s, 'a) promise \<Rightarrow> ('a \<Rightarrow> ('s, 'b) promise) \<Rightarrow> ('s, 'b) promise" where
  "await m f w = (case m w of (Inl e, w') \<Rightarrow> (Inl e, w') | (Inr x, w') \<Rightarrow> f x w')"

definition try_catch :: "('s, 'a) promise \<Rightarrow> (js_error \<Rightarrow> ('s, 'a) promise) \<Rightarrow> ('s, 'a) promise" where
  "try_catch m h w = (case m w of (Inl e, w') \<Rightarrow> h e w' | (Inr x, w') \<Rightarrow> (Inr x, w'))"

definition succeeded :: "js_error + 'a \<Rightarrow> bool" where
  "succeeded r = (case r of Inl e \<Rightarrow> False | Inr x \<Rightarrow> True)"

definition value_of :: "js_error + 'a \<Rightarrow> 'a option" where
  "value_of r = (case r of Inl e \<Rightarrow> None | Inr x \<Rightarrow> Some x)"

definition call :: "('s \<Rightarrow> (js_error + 'a) \<times> 's) \<Rightarrow> (js_error + 'a \<Rightarrow> event) \<Rightarrow> ('s, 'a) promise" where
  "call f ev w = (case f (sbstate w) of (r, s') \<Rightarrow> (r, \<lparr>trace = trace w @ [ev r], sbstate = s'\<rparr>))"

definition listProcesses :: "'s Sandbox \<Rightarrow> ('s, Process list) promise" where
  "listProcesses sandbox = call (sb_listProcesses sandbox) (\<lambda>r. ListProcesses (value_of r))"

definition startProcess :: "'s Sandbox \<Rightarrow> jsstring \<Rightarrow> envVars option \<Rightarrow> ('s, Process) promise" where
  "startProcess sandbox cmd env = call (sb_startProcess sandbox cmd env) (\<lambda>r. StartProcess cmd env (value_of r))"

definition kill :: "'s Sandbox \<Rightarrow> Process \<Rightarrow> ('s, unit) promise" where
  "kill sandbox p = call (sb_kill sandbox p) (\<lambda>r. Kill p (succeeded r))"

definition waitForPort :: "'s Sandbox \<Rightarrow> Process \<Rightarrow> nat \<Rightarrow> nat \<Rightarrow> ('s, unit) promise" where
  "waitForPort sandbox p port timeout =
     call (sb_waitForPort sandbox p port timeout) (\<lambda>r. WaitForPort p port timeout (succeeded r))"

definition getLogs :: "'s Sandbox \<Rightarrow> Process \<Rightarrow> ('s, Logs) promise" where
  "getLogs sandbox p = call (sb_getLogs sandbox p) (\<lambda>r. GetLogs p (succeeded r))"

definition setTimeout :: "'s Sandbox \<Rightarrow> nat \<Rightarrow> ('s, unit) promise" where
  "setTimeout sandbox ms = call (\<lambda>s. (Inr (), sb_elapse sandbox ms s)) (\<lambda>r. SetTimeout ms)"

definition mountR2Storage :: "'s Imports \<Rightarrow> MoltbotEnv \<Rightarrow> ('s, unit) promise" where
  "mountR2Storage imp env = call (\<lambda>s. (Inr (), imp_mountR2Storage imp env s)) (\<lambda>r. MountR2Storage)"

section \<open>gateway/process.ts\<close>

record VersionCheck =
  current :: bool
  expectedHash :: jsstring
  runningHash :: "jsstring option"
  reason :: "jsstring option"

definition readHashCommand :: jsstring where
  \<open>readHashCommand = js ''cat /tmp/gateway-config-hash 2>/dev/null || echo ""''\<close>

definition errorText :: "js_error \<Rightarrow> jsstring" where
  "errorText error = (case error of Error m \<Rightarrow> m | NonError v \<Rightarrow> js ''unknown'')"

definition isGatewayCurrentVersion :: "'s Sandbox \<Rightarrow> MoltbotEnv \<Rightarrow> ('s, VersionCheck) promise" where
  "isGatewayCurrentVersion sandbox env =
     (let expectedHash = computeConfigHash env in
      try_catch
        (await (startProcess sandbox readHashCommand None) (\<lambda>proc.
         await (setTimeout sandbox 500) (\<lambda>_.
         await (getLogs sandbox proc) (\<lambda>logs.
           let runningHash = trim (or_else (stdout logs) []) in
           if runningHash = [] then
             ret \<lparr>current = False, expectedHash = expectedHash, runningHash = None,
                  reason = Some (js ''No config hash found in container (pre-version gateway)'')\<rparr>
           else if runningHash \<noteq> expectedHash then
             ret \<lparr>current = False, expectedHash = expectedHash, runningHash = Some runningHash,
                  reason = Some (js ''Hash mismatch: running='' @ runningHash @ js '', expected='' @ expectedHash)\<rparr>
           else
             ret \<lparr>current = True, expectedHash = expectedHash, runningHash = Some runningHash,
                  reason = None\<rparr>))))
        (\<lambda>error.
           ret \<lparr>current = False, expectedHash = expectedHash, runningHash = None,
                reason = Some (js ''Failed to read config hash: '' @ errorText error)\<rparr>))"

definition isGatewayProcess :: "Process \<Rightarrow> bool" where
  "isGatewayProcess proc =
     (includes_str (command proc) (js ''start-moltbot.sh'') \<or>
      includes_str (command proc) (js ''clawdbot gateway''))"

definition isCliCommand :: "Process \<Rightarrow> bool" where
  "isCliCommand proc =
     (includes_str (command proc) (js ''clawdbot devices'') \<or>
      includes_str (command proc) (js ''clawdbot --version''))"

text \<open>The \<open>for\<close> loop over the listed processes: \<open>Some\<close> is its \<open>return proc\<close>.\<close>

fun findLoop :: "Process list \<Rightarrow> Process option" where
  "findLoop [] = None"
| "findLoop (proc # rest) =
     (if isGatewayProcess proc \<and> \<not> isCliCommand proc then
        (if status proc = js ''starting'' \<or> status proc = js ''running'' then Some proc
         else findLoop rest)
      else findLoop rest)"

definition findExistingMoltbotProcess :: "'s Sandbox \<Rightarrow> ('s, Process option) promise" where
  "findExistingMoltbotProcess sandbox =
     try_catch
       (await (listProcesses sandbox) (\<lambda>processes. ret (findLoop processes)))
       (\<lambda>e. ret None)"

definition startCommand :: jsstring where
  "startCommand = js ''/usr/local/bin/start-moltbot.sh''"

definition envOption :: "envVars \<Rightarrow> envVars option" where
  "envOption envVars = (if length envVars > 0 then Some envVars else None)"

definition restartMoltbotGateway :: "'s Imports \<Rightarrow> 's Sandbox \<Rightarrow> MoltbotEnv \<Rightarrow> ('s, Process) promise" where
  "restartMoltbotGateway imp sandbox env =
     await (findExistingMoltbotProcess sandbox) (\<lambda>existingProcess.
     await (case existingProcess of
              None \<Rightarrow> ret ()
            | Some existing \<Rightarrow>
                try_catch
                  (await (kill sandbox existing) (\<lambda>_. setTimeout sandbox 2000))
                  (\<lambda>killError. ret ())) (\<lambda>_.
     await (mountR2Storage imp env) (\<lambda>_.
     let envVars = buildEnvVars imp env; command = startCommand in
     await (startProcess sandbox command (envOption envVars)) (\<lambda>process.
     await (waitForPort sandbox process (MOLTBOT_PORT imp) (STARTUP_TIMEOUT_MS imp)) (\<lambda>_.
     await (getLogs sandbox process) (\<lambda>logs.
     ret process))))))"

text \<open>
  In \<open>ensureMoltbotGateway\<close> the block under \<open>if (existingProcess)\<close> either returns the
  existing handle (\<open>Some\<close>) or falls through to the fresh start (\<open>None\<close>).
\<close>

definition ensureMoltbotGateway :: "'s Imports \<Rightarrow> 's Sandbox \<Rightarrow> MoltbotEnv \<Rightarrow> ('s, Process) promise" where
  "ensureMoltbotGateway imp sandbox env =
     await (mountR2Storage imp env) (\<lambda>_.
     await (findExistingMoltbotProcess sandbox) (\<lambda>existingProcess.
     await (case existingProcess of
              None \<Rightarrow> ret None
            | Some existing \<Rightarrow>
                await (isGatewayCurrentVersion sandbox env) (\<lambda>versionCheck.
                if \<not> current versionCheck then
                  await (try_catch
                           (await (kill sandbox existing) (\<lambda>_. setTimeout sandbox 2000))
                           (\<lambda>killError. ret ())) (\<lambda>_.
                  ret None)
                else
                  try_catch
                    (await (waitForPort sandbox existing (MOLTBOT_PORT imp) (STARTUP_TIMEOUT_MS imp)) (\<lambda>_.
                     ret (Some existing)))
                    (\<lambda>e.
                       await (try_catch (kill sandbox existing) (\<lambda>killError. ret ())) (\<lambda>_.
                       ret None)))) (\<lambda>reused.
     case reused of
       Some existing \<Rightarrow> ret existing
     | None \<Rightarrow>
         let envVars = buildEnvVars imp env; command = startCommand in
         await (try_catch
                  (startProcess sandbox command (envOption envVars))
                  (\<lambda>startErr. throw startErr)) (\<lambda>process.
         await (try_catch
                  (await (waitForPort sandbox process (MOLTBOT_PORT imp) (STARTUP_TIMEOUT_MS imp)) (\<lambda>_.
                   await (getLogs sandbox process) (\<lambda>logs.
                   ret ())))
                  (\<lambda>e.
                     try_catch
                       (await (getLogs sandbox process) (\<lambda>logs.
                        throw (Error (js ''Moltbot gateway failed to start. Stderr: '' @
                                      or_else (stderr logs) (js ''(empty)'')))))
                       (\<lambda>logErr. throw e))) (\<lambda>_.
         ret process)))))"


section \<open>Observing a run\<close>

text \<open>The result of a run, and the calls it made (the events it added to the trace).\<close>

definition outcome :: "('s, 'a) promise \<Rightarrow> 's world \<Rightarrow> js_error + 'a" where
  "outcome f w = fst (f w)"

definition after :: "('s, 'a) promise \<Rightarrow> 's world \<Rightarrow> 's world" where
  "after f w = snd (f w)"

definition calls :: "('s, 'a) promise \<Rightarrow> 's world \<Rightarrow> event list" where
  "calls f w = drop (length (trace w)) (trace (snd (f w)))"

definition isStart :: "event \<Rightarrow> bool" where
  "isStart e = (case e of StartProcess c v r \<Rightarrow> True | _ \<Rightarrow> False)"

definition isGatewayStart :: "event \<Rightarrow> bool" where
  "isGatewayStart e = (case e of StartProcess c v r \<Rightarrow> c = startCommand | _ \<Rightarrow> False)"

definition isKill :: "event \<Rightarrow> bool" where
  "isKill e = (case e of Kill p b \<Rightarrow> True | _ \<Rightarrow> False)"

definition isList :: "event \<Rightarrow> bool" where
  "isList e = (case e of ListProcesses l \<Rightarrow> True | _ \<Rightarrow> False)"

text \<open>No process is started before the first storage mount.\<close>

definition mount_precedes_starts :: "event list \<Rightarrow> bool" where
  "mount_precedes_starts t = (\<not> list_ex isStart (takeWhile (\<lambda>e. e \<noteq> MountR2Storage) t))"

text \<open>No kill is issued from the first start of the gateway on.\<close>

definition kills_precede_gateway_start :: "event list \<Rightarrow> bool" where
  "kills_precede_gateway_start t = (\<not> list_ex isKill (dropWhile (\<lambda>e. \<not> isGatewayStart e) t))"

text \<open>
  The handle passed the readiness wait on the gateway port with the startup timeout, no
  process was started from that wait on, and a gateway started in the run is that handle.
\<close>

definition readyEvent :: "'s Imports \<Rightarrow> Process \<Rightarrow> event" where
  "readyEvent imp h = WaitForPort h (MOLTBOT_PORT imp) (STARTUP_TIMEOUT_MS imp) True"

definition startedOther :: "Process \<Rightarrow> event \<Rightarrow> bool" where
  "startedOther h e = (case e of StartProcess c v r \<Rightarrow> c = startCommand \<and> r \<noteq> Some h | _ \<Rightarrow> False)"

definition ready_checked :: "'s Imports \<Rightarrow> Process \<Rightarrow> event list \<Rightarrow> bool" where
  "ready_checked imp h t =
     (list_ex (\<lambda>e. e = readyEvent imp h) t \<and>
      \<not> list_ex isStart (dropWhile (\<lambda>e. e \<noteq> readyEvent imp h) t) \<and>
      \<not> list_ex (startedOther h) t)"

text \<open>No listing and no kill happens before the first storage mount.\<close>

definition mount_precedes_locate :: "event list \<Rightarrow> bool" where
  "mount_precedes_locate t =
     (\<not> list_ex isList (takeWhile (\<lambda>e. e \<noteq> MountR2Storage) t) \<and>
      \<not> list_ex isKill (takeWhile (\<lambda>e. e \<noteq> MountR2Storage) t))"

text \<open>
  The calls of a restart in their order, given what the sandbox answered: the listing,
  then the kill of the located process (and the settle delay when the kill did not
  reject), then the mount, the start of the gateway, the readiness wait and, when the
  wait succeeded, the log retrieval. There is no start of the read command in it.
\<close>

definition located :: "Process list option \<Rightarrow> Process option" where
  "located listed = (case listed of None \<Rightarrow> None | Some processes \<Rightarrow> findLoop processes)"

definition restartScript ::
  "'s Imports \<Rightarrow> MoltbotEnv \<Rightarrow> Process list option \<Rightarrow> bool \<Rightarrow> Process option \<Rightarrow> bool \<Rightarrow> bool \<Rightarrow> event list" where
  "restartScript imp env listed killOk started waitOk logsOk =
     [ListProcesses listed] @
     (case located listed of
        None \<Rightarrow> []
      | Some existing \<Rightarrow> if killOk then [Kill existing True, SetTimeout 2000] else [Kill existing False]) @
     [MountR2Storage, StartProcess startCommand (envOption (buildEnvVars imp env)) started] @
     (case started of
        None \<Rightarrow> []
      | Some process \<Rightarrow>
          if waitOk then
            [WaitForPort process (MOLTBOT_PORT imp) (STARTUP_TIMEOUT_MS imp) True, GetLogs process logsOk]
          else [WaitForPort process (MOLTBOT_PORT imp) (STARTUP_TIMEOUT_MS imp) False])"

definition restart_post :: "'s Imports \<Rightarrow> MoltbotEnv \<Rightarrow> js_error + Process \<Rightarrow> event list \<Rightarrow> bool" where
  "restart_post imp env r t =
     (\<exists>listed killOk started waitOk logsOk.
        t = restartScript imp env listed killOk started waitOk logsOk \<and>
        (case r of
           Inl e \<Rightarrow> started = None \<or> \<not> waitOk \<or> \<not> logsOk
         | Inr h \<Rightarrow> started = Some h \<and> waitOk \<and> logsOk))"

text \<open>
  \<open>sat m Q\<close>: every run of \<open>m\<close> only adds calls to the trace, and its result and
  added calls satisfy \<open>Q\<close>.
\<close>

definition sat :: "('s, 'a) promise \<Rightarrow> (js_error + 'a \<Rightarrow> event list \<Rightarrow> bool) \<Rightarrow> bool" where
  "sat m Q = (\<forall>w. \<exists>t. trace (snd (m w)) = trace w @ t \<and> Q (fst (m w)) t)"

text \<open>A process the locator may return.\<close>

definition liveGateway :: "Process \<Rightarrow> bool" where
  "liveGateway p =
     (isGatewayProcess p \<and> \<not> isCliCommand p \<and> (status p = js ''starting'' \<or> status p = js ''running''))"

text \<open>
  What the read of the persisted fingerprint delivers: the thrown value when starting the
  read command or fetching its logs rejects, else the captured standard output (empty
  when undefined), before trimming.
\<close>

definition readOutput :: "'s Sandbox \<Rightarrow> 's \<Rightarrow> js_error + jsstring" where
  "readOutput sandbox s =
     (case sb_startProcess sandbox readHashCommand None s of
        (Inl e, s1) \<Rightarrow> Inl e
      | (Inr proc, s1) \<Rightarrow>
          (case sb_getLogs sandbox proc (sb_elapse sandbox 500 s1) of
             (Inl e, s2) \<Rightarrow> Inl e
           | (Inr logs, s2) \<Rightarrow> Inr (or_else (stdout logs) [])))"

section \<open>A simulated sandbox\<close>

text \<open>
  A small sandbox to run the functions on: its state is the process table; a start
  appends a process in status \<open>starting\<close>; a kill removes it; the readiness wait and the
  log retrieval succeed or reject as the two flags say; the read command prints the
  given file content and a newline; every other process has \<open>boom\<close> on its error stream.
\<close>

definition simProcess :: "nat \<Rightarrow> jsstring \<Rightarrow> Process" where
  "simProcess n cmd = \<lparr>proc_id = replicate n 0x70, command = cmd, status = js ''starting''\<rparr>"

definition simLogs :: "jsstring \<Rightarrow> Process \<Rightarrow> Logs" where
  "simLogs file p =
     (if command p = readHashCommand then \<lparr>stdout = Some (file @ [0x0A]), stderr = None\<rparr>
      else \<lparr>stdout = Some [], stderr = Some (js ''boom'')\<rparr>)"

definition sim :: "bool \<Rightarrow> bool \<Rightarrow> jsstring \<Rightarrow> (Process list) Sandbox" where
  "sim waitOk logsOk file =
     \<lparr>sb_listProcesses = (\<lambda>s. (Inr s, s)),
      sb_startProcess = (\<lambda>cmd env s. (Inr (simProcess (length s) cmd), s @ [simProcess (length s) cmd])),
      sb_kill = (\<lambda>p s. (Inr (), removeAll p s)),
      sb_waitForPort = (\<lambda>p port timeout s. (if waitOk then Inr () else Inl (Error (js ''timeout'')), s)),
      sb_getLogs = (\<lambda>p s. (if logsOk then Inr (simLogs file p) else Inl (Error (js ''no logs'')), s)),
      sb_elapse = (\<lambda>ms s. s)\<rparr>"

definition simImports :: "(Process list) Imports" where
  "simImports =
     \<lparr>imp_mountR2Storage = (\<lambda>env s. s), buildEnvVars = (\<lambda>env. []),
      MOLTBOT_PORT = 18789, STARTUP_TIMEOUT_MS = 180000\<rparr>"

definition env0 :: MoltbotEnv where
  "env0 =
     \<lparr>MOLTBOT_GATEWAY_TOKEN = Some (js ''secret''), AI_GATEWAY_API_KEY = None,
      AI_GATEWAY_BASE_URL = None, ANTHROPIC_API_KEY = None, ANTHROPIC_BASE_URL = None,
      OPENAI_API_KEY = None, TELEGRAM_BOT_TOKEN = None, TELEGRAM_DM_POLICY = None,
      DISCORD_BOT_TOKEN = None, DISCORD_DM_POLICY = None, SLACK_BOT_TOKEN = None,
      SLACK_APP_TOKEN = None, DEV_MODE = None, CLAWDBOT_BIND_MODE = None\<rparr>"

definition env1 :: MoltbotEnv where
  "env1 = env0\<lparr>DEV_MODE := Some []\<rparr>"

definition gatewayProc :: Process where
  "gatewayProc = \<lparr>proc_id = js ''gw'', command = startCommand, status = js ''running''\<rparr>"

definition exitedProc :: Process where
  "exitedProc = \<lparr>proc_id = js ''old'', command = startCommand, status = js ''exited''\<rparr>"

definition cliProc :: Process where
  "cliProc = \<lparr>proc_id = js ''cli'', command = js ''clawdbot devices list'', status = js ''running''\<rparr>"

definition mixedProc :: Process where
  "mixedProc =
     \<lparr>proc_id = js ''mix'', command = js ''clawdbot gateway; clawdbot --version'', status = js ''running''\<rparr>"

definition world0 :: "Process list \<Rightarrow> (Process list) world" where
  "world0 table = \<lparr>trace = [], sbstate = table\<rparr>"

section \<open>Strings\<close>

lemma startsWith_iff: "startsWith s sub \<longleftrightarrow> (\<exists>post. s = sub @ post)"
  by (induction s sub rule: startsWith.induct) auto

lemma includes_str_iff: "includes_str s sub \<longleftrightarrow> (\<exists>pre post. s = pre @ sub @ post)"
proof (induction s)
  case Nil
  show ?case by auto
next
  case (Cons d ds)
  show ?case
  proof
    assume "includes_str (d # ds) sub"
    then consider "startsWith (d # ds) sub" | "includes_str ds sub" by auto
    then show "\<exists>pre post. d # ds = pre @ sub @ post"
    proof cases
      case 1
      then obtain post where "d # ds = sub @ post" by (auto simp: startsWith_iff)
      then have "d # ds = [] @ sub @ post" by simp
      then show ?thesis by blast
    next
      case 2
      with Cons.IH obtain pre post where "ds = pre @ sub @ post" by auto
      then have "d # ds = (d # pre) @ sub @ post" by simp
      then show ?thesis by blast
    qed
  next
    assume "\<exists>pre post. d # ds = pre @ sub @ post"
    then obtain pre post where eq: "d # ds = pre @ sub @ post" by auto
    show "includes_str (d # ds) sub"
    proof (cases pre)
      case Nil
      with eq have "startsWith (d # ds) sub" by (auto simp: startsWith_iff)
      then show ?thesis by simp
    next
      case (Cons x pre')
      with eq have "ds = pre' @ sub @ post" by simp
      with Cons.IH have "includes_str ds sub" by blast
      then show ?thesis by simp
    qed
  qed
qed

lemma includes_str_middle: "includes_str (a @ b @ c) b"
  by (auto simp: includes_str_iff)

lemma includes_str_end: "includes_str (a @ b) b"
  using includes_str_middle [of a b "[]"] by simp

lemma trim_empty_iff: "trim s = [] \<longleftrightarrow> list_all isWhiteSpace s"
proof -
  have "(\<forall>x\<in>set (dropWhile isWhiteSpace s). isWhiteSpace x) \<longleftrightarrow> dropWhile isWhiteSpace s = []"
  proof
    assume all: "\<forall>x\<in>set (dropWhile isWhiteSpace s). isWhiteSpace x"
    show "dropWhile isWhiteSpace s = []"
    proof (rule ccontr)
      assume ne: "dropWhile isWhiteSpace s \<noteq> []"
      then have "\<not> isWhiteSpace (hd (dropWhile isWhiteSpace s))" by (rule hd_dropWhile)
      moreover from ne have "hd (dropWhile isWhiteSpace s) \<in> set (dropWhile isWhiteSpace s)" by simp
      ultimately show False using all by blast
    qed
  next
    assume e: "dropWhile isWhiteSpace s = []"
    show "\<forall>x\<in>set (dropWhile isWhiteSpace s). isWhiteSpace x" unfolding e by simp
  qed
  then show ?thesis
    by (simp add: trim_def dropWhile_eq_Nil_conv list_all_iff)
qed

lemma trim_surrounded:
  assumes "list_all isWhiteSpace ws1" "list_all isWhiteSpace ws2"
      and "h \<noteq> []" "\<not> isWhiteSpace (hd h)" "\<not> isWhiteSpace (last h)"
  shows "trim (ws1 @ h @ ws2) = h"
proof -
  have a: "dropWhile isWhiteSpace (ws1 @ h @ ws2) = h @ ws2"
    using assms(1,3,4) by (cases h) (auto simp: dropWhile_append list_all_iff)
  have "rev (h @ ws2) = rev ws2 @ rev h" by simp
  moreover have "dropWhile isWhiteSpace (rev ws2 @ rev h) = rev h"
    using assms(2,3,5) by (cases h rule: rev_cases) (auto simp: dropWhile_append list_all_iff)
  ultimately show ?thesis by (simp add: trim_def a)
qed

section \<open>The configuration hash\<close>

lemma djb2_step:
  "toUint32 ((shl5 (int n) + int n) + uint c) = int ((n * 33 + unat c) mod 2 ^ 32)"
proof -
  have "(word_of_int (sint (push_bit 5 (word_of_int (int n) :: 32 word)) + int n + uint c) :: 32 word)
      = word_of_int (int (n * 33 + unat c))"
    by (simp add: push_bit_eq_mult)
  then show ?thesis
    unfolding toUint32_def shl5_def
    by (simp only: uint_word_of_int) (simp add: zmod_int)
qed

lemma djb2Loop_spec: "djb2Loop (int n) s = int (djb2_spec n s)"
proof (induction s arbitrary: n)
  case Nil
  show ?case by simp
next
  case (Cons c cs)
  show ?case using Cons.IH [of "(n * 33 + unat c) mod 2 ^ 32"]
    by (simp only: djb2Loop.simps djb2_spec.simps djb2_step)
qed

lemma djb2_spec_bound: "h < 2 ^ 32 \<Longrightarrow> djb2_spec h s < 2 ^ 32"
  by (induction s arbitrary: h) simp_all

lemma length_hex_fixed: "length (hex_fixed k n) = k"
  by (induction k arbitrary: n) simp_all

lemma hexDigit_cases:
  assumes "d < 16"
  shows "hexDigit d \<in> {48, 49, 50, 51, 52, 53, 54, 55, 56, 57, 97, 98, 99, 100, 101, 102}"
proof -
  from assms have "d \<in> {0,1,2,3,4,5,6,7,8,9,10,11,12,13,14,15}" by simp arith
  then show ?thesis
    by (auto simp: hexDigit_def)
qed

lemma hexDigit_lower: "d < 16 \<Longrightarrow> hexDigit d \<in> lowerHexChars"
  using hexDigit_cases [of d] by (simp add: lowerHexChars_def js_def)

lemma set_hex_fixed: "set (hex_fixed k n) \<subseteq> lowerHexChars"
  by (induction k arbitrary: n) (simp_all add: hexDigit_lower)

lemma lowerHex_not_space: "c \<in> lowerHexChars \<Longrightarrow> \<not> isWhiteSpace c"
  by (auto simp: lowerHexChars_def js_def isWhiteSpace_def)

lemma hex_fixed_zero: "hex_fixed k 0 = replicate k 0x30"
  by (induction k) (simp_all add: hexDigit_def replicate_append_same)

lemma length_toString16: "0 < k \<Longrightarrow> n < 16 ^ k \<Longrightarrow> length (toString16 n) \<le> k"
proof (induction k arbitrary: n)
  case 0 then show ?case by simp
next
  case (Suc k)
  show ?case
  proof (cases "n < 16")
    case True then show ?thesis by (simp add: toString16.simps)
  next
    case False
    with Suc.prems have k: "0 < k" by (cases k) auto
    from Suc.prems have "n div 16 < 16 ^ k" by (simp add: less_mult_imp_div_less mult.commute)
    with Suc.IH k have "length (toString16 (n div 16)) \<le> k" by simp
    with False show ?thesis by (subst toString16.simps) simp
  qed
qed

lemma padStart_toString16:
  "0 < k \<Longrightarrow> n < 16 ^ k \<Longrightarrow> padStart k 0x30 (toString16 n) = hex_fixed k n"
proof (induction k arbitrary: n)
  case 0 then show ?case by simp
next
  case (Suc k)
  show ?case
  proof (cases "n < 16")
    case True
    then have "toString16 n = [hexDigit n]" by (simp add: toString16.simps)
    with True show ?thesis by (simp add: padStart_def hex_fixed_zero)
  next
    case False
    with Suc.prems have k: "0 < k" by (cases k) auto
    from Suc.prems have b: "n div 16 < 16 ^ k" by (simp add: less_mult_imp_div_less mult.commute)
    have IH: "padStart k 0x30 (toString16 (n div 16)) = hex_fixed k (n div 16)"
      using Suc.IH k b by simp
    have len: "length (toString16 (n div 16)) \<le> k" using length_toString16 k b by simp
    have ts: "toString16 n = toString16 (n div 16) @ [hexDigit (n mod 16)]"
      using False by (subst toString16.simps) simp
    have "padStart (Suc k) 0x30 (toString16 n) =
            padStart k 0x30 (toString16 (n div 16)) @ [hexDigit (n mod 16)]"
      using len by (simp add: ts padStart_def Suc_diff_le)
    then show ?thesis by (simp add: IH)
  qed
qed

lemma djb2Hash_spec: "djb2Hash s = hex_fixed 8 (djb2_spec 5381 s)"
proof -
  have "djb2Loop 5381 s = int (djb2_spec 5381 s)" using djb2Loop_spec [of 5381 s] by simp
  moreover have "djb2_spec 5381 s < 16 ^ 8" using djb2_spec_bound [of 5381 s] by simp
  ultimately show ?thesis by (simp add: djb2Hash_def padStart_toString16)
qed

lemma hex_fixed_8:
  "hex_fixed 8 n =
     [hexDigit (n div 16 div 16 div 16 div 16 div 16 div 16 div 16 mod 16),
      hexDigit (n div 16 div 16 div 16 div 16 div 16 div 16 mod 16),
      hexDigit (n div 16 div 16 div 16 div 16 div 16 mod 16),
      hexDigit (n div 16 div 16 div 16 div 16 mod 16),
      hexDigit (n div 16 div 16 div 16 mod 16),
      hexDigit (n div 16 div 16 mod 16),
      hexDigit (n div 16 mod 16),
      hexDigit (n mod 16)]"
proof -
  have eight: "(8::nat) = Suc (Suc (Suc (Suc (Suc (Suc (Suc (Suc 0)))))))" by simp
  show ?thesis unfolding eight by (simp only: hex_fixed.simps append.simps)
qed

lemma djb2Hash_abc: "djb2Hash (js ''abc'') = js ''0b885c8b''"
  by (simp add: djb2Hash_spec js_def hexDigit_def hex_fixed_8)

lemma length_computeConfigHash: "length (computeConfigHash env) = 8"
  by (simp add: computeConfigHash_def djb2Hash_spec length_hex_fixed)

lemma set_computeConfigHash: "set (computeConfigHash env) \<subseteq> lowerHexChars"
  by (simp add: computeConfigHash_def djb2Hash_spec set_hex_fixed)

lemma computeConfigHash_not_empty: "computeConfigHash env \<noteq> []"
  using length_computeConfigHash [of env] by auto

lemma computeConfigHash_ends:
  "\<not> isWhiteSpace (hd (computeConfigHash env))" "\<not> isWhiteSpace (last (computeConfigHash env))"
  using computeConfigHash_not_empty [of env] set_computeConfigHash [of env]
  by (auto intro!: lowerHex_not_space)

lemma trim_computeConfigHash:
  "list_all isWhiteSpace ws1 \<Longrightarrow> list_all isWhiteSpace ws2 \<Longrightarrow>
     trim (ws1 @ computeConfigHash env @ ws2) = computeConfigHash env"
  by (rule trim_surrounded) (simp_all add: computeConfigHash_not_empty computeConfigHash_ends)

text \<open>
  C4. \<open>computeConfigHash\<close> depends on the configuration snapshot only: equal snapshots
  give equal results. Its result is the djb2 hash of the serialized snapshot (seed 5381,
  times 33 plus the character, modulo \<open>2^32\<close>), written as eight lowercase hexadecimal
  digits with leading zeros.
\<close>

theorem computeConfigHash_djb2:
  "(relevantConfig a = relevantConfig b \<longrightarrow> computeConfigHash a = computeConfigHash b) \<and>
   computeConfigHash env = hex_fixed 8 (djb2_spec 5381 (JSON_stringify (relevantConfig env))) \<and>
   djb2_spec 5381 (JSON_stringify (relevantConfig env)) < 2 ^ 32 \<and>
   length (computeConfigHash env) = 8 \<and>
   set (computeConfigHash env) \<subseteq> lowerHexChars"
proof -
  have "djb2_spec 5381 (JSON_stringify (relevantConfig env)) < 2 ^ 32"
    by (rule djb2_spec_bound) simp
  then show ?thesis
    by (simp add: computeConfigHash_def djb2Hash_spec length_hex_fixed set_hex_fixed)
qed

theorem computeConfigHash_djb2_witness:
  "env0 \<noteq> env1 \<and> relevantConfig env0 = relevantConfig env1 \<and>
   computeConfigHash env0 = computeConfigHash env1 \<and>
   length (computeConfigHash env0) = 8"
proof -
  have snap: "relevantConfig env0 = relevantConfig env1"
    by (simp add: relevantConfig_def env0_def env1_def or_else_def)
  have "env0 \<noteq> env1" by (simp add: env0_def env1_def)
  with snap computeConfigHash_djb2 [where a = env0 and b = env1 and env = env0] show ?thesis by blast
qed

section \<open>Rules for runs\<close>

lemma sat_ret: "Q (Inr x) [] \<Longrightarrow> sat (ret x) Q"
  by (simp add: sat_def ret_def)

lemma sat_throw: "Q (Inl e) [] \<Longrightarrow> sat (throw e) Q"
  by (simp add: sat_def throw_def)

lemma sat_call: "(\<And>r. Q r [ev r]) \<Longrightarrow> sat (call f ev) Q"
  by (simp add: sat_def call_def split: prod.splits)

lemma sat_await:
  assumes "sat m (\<lambda>r t. case r of Inl e \<Rightarrow> Q (Inl e) t | Inr x \<Rightarrow> sat (f x) (\<lambda>r' t'. Q r' (t @ t')))"
  shows "sat (await m f) Q"
  unfolding sat_def
proof
  fix w
  from assms obtain t where t: "trace (snd (m w)) = trace w @ t"
    and q: "case fst (m w) of Inl e \<Rightarrow> Q (Inl e) t | Inr x \<Rightarrow> sat (f x) (\<lambda>r' t'. Q r' (t @ t'))"
    unfolding sat_def by blast
  show "\<exists>t. trace (snd (await m f w)) = trace w @ t \<and> Q (fst (await m f w)) t"
  proof (cases "fst (m w)")
    case (Inl e)
    then have "await m f w = (Inl e, snd (m w))" by (cases "m w") (simp add: await_def)
    with t q Inl show ?thesis by auto
  next
    case (Inr x)
    then have aw: "await m f w = f x (snd (m w))" by (cases "m w") (simp add: await_def)
    from q Inr have "sat (f x) (\<lambda>r' t'. Q r' (t @ t'))" by simp
    then obtain t' where "trace (snd (f x (snd (m w)))) = trace (snd (m w)) @ t'"
      and "Q (fst (f x (snd (m w)))) (t @ t')" unfolding sat_def by blast
    with t aw show ?thesis by auto
  qed
qed

lemma sat_try_catch:
  assumes "sat m (\<lambda>r t. case r of Inl e \<Rightarrow> sat (h e) (\<lambda>r' t'. Q r' (t @ t')) | Inr x \<Rightarrow> Q (Inr x) t)"
  shows "sat (try_catch m h) Q"
  unfolding sat_def
proof
  fix w
  from assms obtain t where t: "trace (snd (m w)) = trace w @ t"
    and q: "case fst (m w) of Inl e \<Rightarrow> sat (h e) (\<lambda>r' t'. Q r' (t @ t')) | Inr x \<Rightarrow> Q (Inr x) t"
    unfolding sat_def by blast
  show "\<exists>t. trace (snd (try_catch m h w)) = trace w @ t \<and> Q (fst (try_catch m h w)) t"
  proof (cases "fst (m w)")
    case (Inr x)
    then have "try_catch m h w = (Inr x, snd (m w))" by (cases "m w") (simp add: try_catch_def)
    with t q Inr show ?thesis by auto
  next
    case (Inl e)
    then have tc: "try_catch m h w = h e (snd (m w))" by (cases "m w") (simp add: try_catch_def)
    from q Inl have "sat (h e) (\<lambda>r' t'. Q r' (t @ t'))" by simp
    then obtain t' where "trace (snd (h e (snd (m w)))) = trace (snd (m w)) @ t'"
      and "Q (fst (h e (snd (m w)))) (t @ t')" unfolding sat_def by blast
    with t tc show ?thesis by auto
  qed
qed

lemma sat_observed: "sat m Q \<Longrightarrow> Q (outcome m w) (calls m w)"
proof -
  assume "sat m Q"
  then obtain t where "trace (snd (m w)) = trace w @ t" and "Q (fst (m w)) t"
    unfolding sat_def by blast
  then show ?thesis by (simp add: outcome_def calls_def)
qed

lemmas prim_defs = listProcesses_def startProcess_def kill_def waitForPort_def getLogs_def
  setTimeout_def mountR2Storage_def

lemmas sat_rules = sat_await sat_try_catch sat_call sat_ret sat_throw

lemmas run_defs = await_def try_catch_def ret_def throw_def call_def

section \<open>The simulated sandbox\<close>

lemma sim_simps [simp]:
  "sb_listProcesses (sim waitOk logsOk file) s = (Inr s, s)"
  "sb_startProcess (sim waitOk logsOk file) cmd v s = (Inr (simProcess (length s) cmd), s @ [simProcess (length s) cmd])"
  "sb_kill (sim waitOk logsOk file) p s = (Inr (), removeAll p s)"
  "sb_waitForPort (sim waitOk logsOk file) p port timeout s = (if waitOk then Inr () else Inl (Error (js ''timeout'')), s)"
  "sb_getLogs (sim waitOk logsOk file) p s = (if logsOk then Inr (simLogs file p) else Inl (Error (js ''no logs'')), s)"
  "sb_elapse (sim waitOk logsOk file) ms s = s"
  by (simp_all add: sim_def)

lemma simImports_simps [simp]:
  "imp_mountR2Storage simImports env s = s"
  "buildEnvVars simImports env = []"
  "MOLTBOT_PORT simImports = 18789"
  "STARTUP_TIMEOUT_MS simImports = 180000"
  by (simp_all add: simImports_def)

lemma commands_differ [simp]: "readHashCommand \<noteq> startCommand" "startCommand \<noteq> readHashCommand"
  by (simp_all add: readHashCommand_def startCommand_def js_def)

lemma liveGateway_fixtures [simp]:
  "liveGateway gatewayProc" "\<not> liveGateway exitedProc" "\<not> liveGateway cliProc" "\<not> liveGateway mixedProc"
  "liveGateway (simProcess n startCommand)" "\<not> liveGateway (simProcess n readHashCommand)"
  by (simp_all add: liveGateway_def isGatewayProcess_def isCliCommand_def gatewayProc_def exitedProc_def
      cliProc_def mixedProc_def simProcess_def startCommand_def readHashCommand_def js_def)

section \<open>The process locator\<close>

lemma findLoop_find: "findLoop ps = find liveGateway ps"
  by (induction ps) (simp_all add: liveGateway_def)

lemma findExisting_run:
  "findExistingMoltbotProcess sb w =
     (Inr (located (value_of (fst (sb_listProcesses sb (sbstate w))))),
      \<lparr>trace = trace w @ [ListProcesses (value_of (fst (sb_listProcesses sb (sbstate w))))],
       sbstate = snd (sb_listProcesses sb (sbstate w))\<rparr>)"
  by (simp add: findExistingMoltbotProcess_def listProcesses_def run_defs located_def value_of_def
        split: prod.splits sum.splits)

lemma status_literals:
  "js ''exited'' \<noteq> js ''starting''" "js ''exited'' \<noteq> js ''running''"
  "js ''unknown'' \<noteq> js ''starting''" "js ''unknown'' \<noteq> js ''running''"
  by (simp_all add: js_def)

text \<open>
  C5. The locator never rejects. Its result is the first listed process that is a live
  gateway (the command contains \<open>start-moltbot.sh\<close> or \<open>clawdbot gateway\<close>, contains neither
  \<open>clawdbot devices\<close> nor \<open>clawdbot --version\<close>, and the status is \<open>starting\<close> or
  \<open>running\<close>); a returned process is never \<open>exited\<close> or \<open>unknown\<close>; the result is null when
  the listing has no such process, and also when the listing rejects.
\<close>

theorem findExisting_live_match:
  "(\<exists>found. outcome (findExistingMoltbotProcess sb) w = Inr found) \<and>
   (\<forall>p. outcome (findExistingMoltbotProcess sb) w = Inr (Some p) \<longrightarrow>
      (\<exists>ps. fst (sb_listProcesses sb (sbstate w)) = Inr ps \<and> p \<in> set ps) \<and>
      isGatewayProcess p \<and> \<not> isCliCommand p \<and>
      \<not> includes_str (command p) (js ''clawdbot devices'') \<and>
      \<not> includes_str (command p) (js ''clawdbot --version'') \<and>
      (status p = js ''starting'' \<or> status p = js ''running'') \<and>
      status p \<noteq> js ''exited'' \<and> status p \<noteq> js ''unknown'') \<and>
   (\<forall>ps. fst (sb_listProcesses sb (sbstate w)) = Inr ps \<longrightarrow>
      outcome (findExistingMoltbotProcess sb) w = Inr (find liveGateway ps)) \<and>
   (\<forall>ps. fst (sb_listProcesses sb (sbstate w)) = Inr ps \<and> \<not> list_ex liveGateway ps \<longrightarrow>
      outcome (findExistingMoltbotProcess sb) w = Inr None) \<and>
   (\<forall>e. fst (sb_listProcesses sb (sbstate w)) = Inl e \<longrightarrow>
      outcome (findExistingMoltbotProcess sb) w = Inr None)"
proof -
  have out: "outcome (findExistingMoltbotProcess sb) w =
      Inr (case fst (sb_listProcesses sb (sbstate w)) of Inl e \<Rightarrow> None | Inr ps \<Rightarrow> find liveGateway ps)"
    by (simp add: outcome_def findExisting_run located_def value_of_def findLoop_find split: sum.splits)
  have live: "liveGateway p \<Longrightarrow>
      isGatewayProcess p \<and> \<not> isCliCommand p \<and>
      \<not> includes_str (command p) (js ''clawdbot devices'') \<and>
      \<not> includes_str (command p) (js ''clawdbot --version'') \<and>
      (status p = js ''starting'' \<or> status p = js ''running'') \<and>
      status p \<noteq> js ''exited'' \<and> status p \<noteq> js ''unknown''" for p
    using status_literals by (auto simp: liveGateway_def isCliCommand_def)
  have some: "find liveGateway ps = Some p \<Longrightarrow> p \<in> set ps \<and> liveGateway p" for ps p
    by (auto simp: find_Some_iff)
  have none: "\<not> list_ex liveGateway ps \<Longrightarrow> find liveGateway ps = None" for ps
    by (simp add: find_None_iff list_ex_iff)
  show ?thesis
  proof (cases "fst (sb_listProcesses sb (sbstate w))")
    case (Inl e)
    with out show ?thesis by simp
  next
    case (Inr ps)
    with out have o: "outcome (findExistingMoltbotProcess sb) w = Inr (find liveGateway ps)" by simp
    show ?thesis using some [of ps] live none [of ps] by (simp add: o Inr)
  qed
qed

theorem findExisting_live_match_witness:
  "outcome (findExistingMoltbotProcess (sim True True []))
     (world0 [cliProc, mixedProc, exitedProc, gatewayProc]) = Inr (Some gatewayProc) \<and>
   isGatewayProcess mixedProc \<and> isCliCommand mixedProc \<and>
   isGatewayProcess exitedProc \<and> status gatewayProc = js ''running'' \<and>
   outcome (findExistingMoltbotProcess (sim True True [])) (world0 [cliProc, mixedProc, exitedProc]) = Inr None"
proof -
  have fixtures: "isGatewayProcess mixedProc" "isCliCommand mixedProc" "isGatewayProcess exitedProc"
      "status gatewayProc = js ''running''"
    by (simp_all add: isGatewayProcess_def isCliCommand_def mixedProc_def exitedProc_def
        gatewayProc_def startCommand_def js_def)
  show ?thesis
    using findExisting_live_match [of "sim True True []" "world0 [cliProc, mixedProc, exitedProc, gatewayProc]"]
      findExisting_live_match [of "sim True True []" "world0 [cliProc, mixedProc, exitedProc]"]
      fixtures
    by (simp add: world0_def)
qed

section \<open>The version check\<close>

lemma pre_version_literal:
  "includes_str (js ''No config hash found in container (pre-version gateway)'') (js ''pre-version'')"
  by (simp add: js_def)

lemma version_run:
  "outcome (isGatewayCurrentVersion sb env) w =
     Inr (case readOutput sb (sbstate w) of
            Inl error \<Rightarrow>
              \<lparr>current = False, expectedHash = computeConfigHash env, runningHash = None,
               reason = Some (js ''Failed to read config hash: '' @ errorText error)\<rparr>
          | Inr out \<Rightarrow>
              if trim out = [] then
                \<lparr>current = False, expectedHash = computeConfigHash env, runningHash = None,
                 reason = Some (js ''No config hash found in container (pre-version gateway)'')\<rparr>
              else if trim out \<noteq> computeConfigHash env then
                \<lparr>current = False, expectedHash = computeConfigHash env, runningHash = Some (trim out),
                 reason = Some (js ''Hash mismatch: running='' @ trim out @ js '', expected='' @
                                computeConfigHash env)\<rparr>
              else
                \<lparr>current = True, expectedHash = computeConfigHash env, runningHash = Some (trim out),
                 reason = None\<rparr>)"
  by (simp add: outcome_def isGatewayCurrentVersion_def readOutput_def prim_defs run_defs Let_def
        split: prod.splits sum.splits)

text \<open>
  C3. The version check never rejects and its expected hash is that of the configuration.
  A read that rejects gives not-current, no running hash and a failure reason; an output
  that is empty after trimming gives not-current, no running hash and the pre-version
  reason; another fingerprint gives not-current with a reason that contains the running
  and the expected value; the expected fingerprint gives current and no reason. The
  reason is present exactly when the gateway is not current.
\<close>

theorem isGatewayCurrentVersion_outcomes:
  "\<exists>vc. outcome (isGatewayCurrentVersion sb env) w = Inr vc \<and>
     expectedHash vc = computeConfigHash env \<and>
     ((reason vc \<noteq> None) = (\<not> current vc)) \<and>
     (case readOutput sb (sbstate w) of
        Inl error \<Rightarrow>
          \<not> current vc \<and> runningHash vc = None \<and>
          reason vc = Some (js ''Failed to read config hash: '' @ errorText error)
      | Inr out \<Rightarrow>
          if trim out = [] then
            \<not> current vc \<and> runningHash vc = None \<and>
            reason vc = Some (js ''No config hash found in container (pre-version gateway)'') \<and>
            includes_str (the (reason vc)) (js ''pre-version'')
          else if trim out \<noteq> computeConfigHash env then
            \<not> current vc \<and> runningHash vc = Some (trim out) \<and>
            reason vc = Some (js ''Hash mismatch: running='' @ trim out @ js '', expected='' @
                              computeConfigHash env) \<and>
            includes_str (the (reason vc)) (trim out) \<and>
            includes_str (the (reason vc)) (computeConfigHash env)
          else
            current vc \<and> runningHash vc = Some (computeConfigHash env) \<and> reason vc = None)"
proof (cases "readOutput sb (sbstate w)")
  case (Inl error)
  then show ?thesis by (simp add: version_run)
next
  case (Inr out)
  have both:
    "includes_str (js ''Hash mismatch: running='' @ trim out @ js '', expected='' @ computeConfigHash env) (trim out)"
    "includes_str (js ''Hash mismatch: running='' @ trim out @ js '', expected='' @ computeConfigHash env)
       (computeConfigHash env)"
    using includes_str_middle [of "js ''Hash mismatch: running=''" "trim out" "js '', expected='' @ computeConfigHash env"]
      includes_str_end [of "js ''Hash mismatch: running='' @ trim out @ js '', expected=''" "computeConfigHash env"]
    by simp_all
  show ?thesis using both pre_version_literal by (simp add: version_run Inr)
qed

lemma sim_readOutput [simp]: "readOutput (sim waitOk True file) s = Inr (file @ [0x0A])"
  by (simp add: readOutput_def simLogs_def simProcess_def or_else_def)

lemma sim_readOutput_fails [simp]: "readOutput (sim waitOk False file) s = Inl (Error (js ''no logs''))"
  by (simp add: readOutput_def)

lemma trim_newline: "trim [0x0A] = []"
  by (simp add: trim_def isWhiteSpace_def)

lemma trim_stale: "trim (js ''aaaa'' @ [0x0A]) = js ''aaaa''"
  by (simp add: trim_def isWhiteSpace_def js_def)

lemma stale_not_empty: "js ''aaaa'' \<noteq> []"
  by (simp add: js_def)

lemma stale_differs: "js ''aaaa'' \<noteq> computeConfigHash env"
proof
  assume "js ''aaaa'' = computeConfigHash env"
  then have "length (js ''aaaa'') = length (computeConfigHash env)" by simp
  then show False by (simp add: length_computeConfigHash js_def)
qed

theorem isGatewayCurrentVersion_outcomes_witness:
  "outcome (isGatewayCurrentVersion (sim True True []) env0) (world0 []) =
     Inr \<lparr>current = False, expectedHash = computeConfigHash env0, runningHash = None,
          reason = Some (js ''No config hash found in container (pre-version gateway)'')\<rparr> \<and>
   outcome (isGatewayCurrentVersion (sim True False []) env0) (world0 []) =
     Inr \<lparr>current = False, expectedHash = computeConfigHash env0, runningHash = None,
          reason = Some (js ''Failed to read config hash: '' @ js ''no logs'')\<rparr> \<and>
   outcome (isGatewayCurrentVersion (sim True True (js ''aaaa'')) env0) (world0 []) =
     Inr \<lparr>current = False, expectedHash = computeConfigHash env0, runningHash = Some (js ''aaaa''),
          reason = Some (js ''Hash mismatch: running='' @ js ''aaaa'' @ js '', expected='' @
                         computeConfigHash env0)\<rparr>"
proof -
  obtain a where a: "outcome (isGatewayCurrentVersion (sim True True []) env0) (world0 []) = Inr a"
      "expectedHash a = computeConfigHash env0" "\<not> current a" "runningHash a = None"
      "reason a = Some (js ''No config hash found in container (pre-version gateway)'')"
    using isGatewayCurrentVersion_outcomes [of "sim True True []" env0 "world0 []"]
    by (auto simp: trim_newline)
  obtain b where b: "outcome (isGatewayCurrentVersion (sim True False []) env0) (world0 []) = Inr b"
      "expectedHash b = computeConfigHash env0" "\<not> current b" "runningHash b = None"
      "reason b = Some (js ''Failed to read config hash: '' @ js ''no logs'')"
    using isGatewayCurrentVersion_outcomes [of "sim True False []" env0 "world0 []"]
    by (auto simp: errorText_def)
  obtain c where c: "outcome (isGatewayCurrentVersion (sim True True (js ''aaaa'')) env0) (world0 []) = Inr c"
      "expectedHash c = computeConfigHash env0" "\<not> current c" "runningHash c = Some (js ''aaaa'')"
      "reason c = Some (js ''Hash mismatch: running='' @ js ''aaaa'' @ js '', expected='' @
                         computeConfigHash env0)"
    using isGatewayCurrentVersion_outcomes [of "sim True True (js ''aaaa'')" env0 "world0 []"]
      stale_differs [of env0]
    by (auto simp: trim_stale stale_not_empty)
  from a have "outcome (isGatewayCurrentVersion (sim True True []) env0) (world0 []) =
     Inr \<lparr>current = False, expectedHash = computeConfigHash env0, runningHash = None,
          reason = Some (js ''No config hash found in container (pre-version gateway)'')\<rparr>"
    by (cases a) simp
  moreover from b have "outcome (isGatewayCurrentVersion (sim True False []) env0) (world0 []) =
     Inr \<lparr>current = False, expectedHash = computeConfigHash env0, runningHash = None,
          reason = Some (js ''Failed to read config hash: '' @ js ''no logs'')\<rparr>"
    by (cases b) simp
  moreover from c have "outcome (isGatewayCurrentVersion (sim True True (js ''aaaa'')) env0) (world0 []) =
     Inr \<lparr>current = False, expectedHash = computeConfigHash env0, runningHash = Some (js ''aaaa''),
          reason = Some (js ''Hash mismatch: running='' @ js ''aaaa'' @ js '', expected='' @
                         computeConfigHash env0)\<rparr>"
    by (cases c) simp
  ultimately show ?thesis by blast
qed

text \<open>
  C10. The captured output is trimmed before it is compared. When the read delivers
  only whitespace (a lone newline, say), the result is the no-fingerprint one: not
  current, no running hash, the pre-version reason. When it delivers the expected
  fingerprint with whitespace around it, the result is current.
\<close>

theorem isGatewayCurrentVersion_trims:
  assumes "readOutput sb (sbstate w) = Inr out"
  shows "(list_all isWhiteSpace out \<longrightarrow>
            outcome (isGatewayCurrentVersion sb env) w =
              Inr \<lparr>current = False, expectedHash = computeConfigHash env, runningHash = None,
                   reason = Some (js ''No config hash found in container (pre-version gateway)'')\<rparr>) \<and>
         (\<forall>ws1 ws2. list_all isWhiteSpace ws1 \<and> list_all isWhiteSpace ws2 \<and>
              out = ws1 @ computeConfigHash env @ ws2 \<longrightarrow>
            outcome (isGatewayCurrentVersion sb env) w =
              Inr \<lparr>current = True, expectedHash = computeConfigHash env,
                   runningHash = Some (computeConfigHash env), reason = None\<rparr>)"
proof (intro conjI allI impI)
  assume "list_all isWhiteSpace out"
  then have "trim out = []" by (simp add: trim_empty_iff)
  then show "outcome (isGatewayCurrentVersion sb env) w =
      Inr \<lparr>current = False, expectedHash = computeConfigHash env, runningHash = None,
           reason = Some (js ''No config hash found in container (pre-version gateway)'')\<rparr>"
    by (simp add: version_run assms)
next
  fix ws1 ws2
  assume "list_all isWhiteSpace ws1 \<and> list_all isWhiteSpace ws2 \<and> out = ws1 @ computeConfigHash env @ ws2"
  then have "trim out = computeConfigHash env" by (simp add: trim_computeConfigHash)
  then show "outcome (isGatewayCurrentVersion sb env) w =
      Inr \<lparr>current = True, expectedHash = computeConfigHash env,
           runningHash = Some (computeConfigHash env), reason = None\<rparr>"
    by (simp add: version_run assms computeConfigHash_not_empty)
qed

theorem isGatewayCurrentVersion_trims_witness:
  "readOutput (sim True True []) (sbstate (world0 [])) = Inr [0x0A] \<and>
   list_all isWhiteSpace [0x0A] \<and>
   outcome (isGatewayCurrentVersion (sim True True []) env0) (world0 []) =
     Inr \<lparr>current = False, expectedHash = computeConfigHash env0, runningHash = None,
          reason = Some (js ''No config hash found in container (pre-version gateway)'')\<rparr> \<and>
   readOutput (sim True True (computeConfigHash env0)) (sbstate (world0 [])) =
     Inr (computeConfigHash env0 @ [0x0A]) \<and>
   outcome (isGatewayCurrentVersion (sim True True (computeConfigHash env0)) env0) (world0 []) =
     Inr \<lparr>current = True, expectedHash = computeConfigHash env0,
          runningHash = Some (computeConfigHash env0), reason = None\<rparr>"
proof -
  have ws: "list_all isWhiteSpace [0x0A]" by (simp add: isWhiteSpace_def)
  have r1: "readOutput (sim True True []) (sbstate (world0 [])) = Inr [0x0A]" by simp
  have r2: "readOutput (sim True True (computeConfigHash env0)) (sbstate (world0 [])) =
      Inr ([] @ computeConfigHash env0 @ [0x0A])" by simp
  from isGatewayCurrentVersion_trims [OF r1, of env0] ws
  have a: "outcome (isGatewayCurrentVersion (sim True True []) env0) (world0 []) =
     Inr \<lparr>current = False, expectedHash = computeConfigHash env0, runningHash = None,
          reason = Some (js ''No config hash found in container (pre-version gateway)'')\<rparr>"
    by blast
  from isGatewayCurrentVersion_trims [OF r2, of env0, THEN conjunct2, rule_format, of "[]" "[0x0A]"] ws
  have b: "outcome (isGatewayCurrentVersion (sim True True (computeConfigHash env0)) env0) (world0 []) =
     Inr \<lparr>current = True, expectedHash = computeConfigHash env0,
          runningHash = Some (computeConfigHash env0), reason = None\<rparr>"
    by simp
  from ws r1 r2 a b show ?thesis by simp
qed

section \<open>The order of calls\<close>

lemma sat_call_total: "Q (Inr x) [ev (Inr x)] \<Longrightarrow> sat (call (\<lambda>s. (Inr x, g s)) ev) Q"
  by (simp add: sat_def call_def)

lemmas obs_defs = mount_precedes_starts_def kills_precede_gateway_start_def
  ready_checked_def readyEvent_def startedOther_def isStart_def isKill_def isGatewayStart_def
  succeeded_def value_of_def

lemma restart_sat:
  "sat (restartMoltbotGateway imp sb env)
     (\<lambda>r t. mount_precedes_starts t \<and> kills_precede_gateway_start t \<and>
             (case r of Inl e \<Rightarrow> True | Inr h \<Rightarrow> ready_checked imp h t))"
  unfolding restartMoltbotGateway_def findExistingMoltbotProcess_def prim_defs Let_def
  by (rule sat_call_total sat_rules | simp add: obs_defs split: sum.split option.split
      | intro conjI allI impI)+

lemma ensure_sat:
  "sat (ensureMoltbotGateway imp sb env)
     (\<lambda>r t. mount_precedes_starts t \<and> kills_precede_gateway_start t \<and>
             length (filter isGatewayStart t) \<le> 1 \<and>
             (case r of Inl e \<Rightarrow> True | Inr h \<Rightarrow> ready_checked imp h t))"
  unfolding ensureMoltbotGateway_def findExistingMoltbotProcess_def isGatewayCurrentVersion_def
    prim_defs Let_def
  by (rule sat_call_total sat_rules | simp add: obs_defs split: sum.split option.split
      | intro conjI allI impI)+

lemma restart_script_sat:
  "sat (restartMoltbotGateway imp sb env) (restart_post imp env)"
  unfolding restartMoltbotGateway_def findExistingMoltbotProcess_def prim_defs Let_def
  by (rule sat_call_total sat_rules
      | simp add: succeeded_def value_of_def split: sum.split option.split
      | intro conjI allI impI
      | (simp add: restart_post_def restartScript_def located_def ex_bool_eq ex_disj_distrib; fail))+

section \<open>Runs on the simulated sandbox\<close>

lemmas sim_run_defs = findExisting_run isGatewayCurrentVersion_def prim_defs run_defs located_def
  value_of_def succeeded_def findLoop_find world0_def envOption_def simLogs_def Let_def

lemma world0_simps [simp]: "trace (world0 table) = []" "sbstate (world0 table) = table"
  by (simp_all add: world0_def)

lemma simProcess_simps [simp]:
  "command (simProcess n cmd) = cmd"
  "(simProcess n cmd = simProcess m cmd') = (n = m \<and> cmd = cmd')"
  "gatewayProc \<noteq> simProcess n cmd"
  by (auto simp: simProcess_def gatewayProc_def js_def)

lemma gatewayProc_command [simp]: "command gatewayProc = startCommand"
  by (simp add: gatewayProc_def)

lemma trim_hash_newline [simp]: "trim (computeConfigHash env @ [0x0A]) = computeConfigHash env"
  using trim_computeConfigHash [of "[]" "[0x0A]" env] by (simp add: isWhiteSpace_def)

lemma restart_sim_run:
  "restartMoltbotGateway simImports (sim True True []) env0 (world0 [gatewayProc]) =
     (Inr (simProcess 0 startCommand),
      \<lparr>trace = [ListProcesses (Some [gatewayProc]), Kill gatewayProc True, SetTimeout 2000,
                MountR2Storage, StartProcess startCommand None (Some (simProcess 0 startCommand)),
                WaitForPort (simProcess 0 startCommand) 18789 180000 True,
                GetLogs (simProcess 0 startCommand) True],
       sbstate = [simProcess 0 startCommand]\<rparr>)"
  by (simp add: restartMoltbotGateway_def sim_run_defs)

lemma ensure_sim_stale:
  "ensureMoltbotGateway simImports (sim True True (js ''aaaa'')) env0 (world0 [gatewayProc]) =
     (Inr (simProcess 1 startCommand),
      \<lparr>trace = [MountR2Storage, ListProcesses (Some [gatewayProc]),
                StartProcess readHashCommand None (Some (simProcess 1 readHashCommand)),
                SetTimeout 500, GetLogs (simProcess 1 readHashCommand) True,
                Kill gatewayProc True, SetTimeout 2000,
                StartProcess startCommand None (Some (simProcess 1 startCommand)),
                WaitForPort (simProcess 1 startCommand) 18789 180000 True,
                GetLogs (simProcess 1 startCommand) True],
       sbstate = [simProcess 1 readHashCommand, simProcess 1 startCommand]\<rparr>)"
  by (simp add: ensureMoltbotGateway_def sim_run_defs trim_stale stale_not_empty stale_differs or_else_def)

text \<open>
  C7. In every run of \<open>ensureMoltbotGateway\<close> and of \<open>restartMoltbotGateway\<close>: no process
  is started before the storage mount; no kill is issued once the gateway has been
  started; and a returned handle has passed the readiness wait on the gateway port with
  the startup timeout, after which no process was started; when the run started a
  gateway, the returned handle is that of the started process.
\<close>

theorem gateway_call_order:
  "mount_precedes_starts (calls (ensureMoltbotGateway imp sb env) w) \<and>
   kills_precede_gateway_start (calls (ensureMoltbotGateway imp sb env) w) \<and>
   (\<forall>h. outcome (ensureMoltbotGateway imp sb env) w = Inr h \<longrightarrow>
        ready_checked imp h (calls (ensureMoltbotGateway imp sb env) w)) \<and>
   mount_precedes_starts (calls (restartMoltbotGateway imp sb env) w) \<and>
   kills_precede_gateway_start (calls (restartMoltbotGateway imp sb env) w) \<and>
   (\<forall>h. outcome (restartMoltbotGateway imp sb env) w = Inr h \<longrightarrow>
        ready_checked imp h (calls (restartMoltbotGateway imp sb env) w))"
  using sat_observed [OF ensure_sat [of imp sb env], of w]
    sat_observed [OF restart_sat [of imp sb env], of w]
  by (simp split: sum.splits)

theorem gateway_call_order_witness:
  "outcome (ensureMoltbotGateway simImports (sim True True (js ''aaaa'')) env0) (world0 [gatewayProc]) =
     Inr (simProcess 1 startCommand) \<and>
   calls (ensureMoltbotGateway simImports (sim True True (js ''aaaa'')) env0) (world0 [gatewayProc]) =
     [MountR2Storage, ListProcesses (Some [gatewayProc]),
      StartProcess readHashCommand None (Some (simProcess 1 readHashCommand)),
      SetTimeout 500, GetLogs (simProcess 1 readHashCommand) True,
      Kill gatewayProc True, SetTimeout 2000,
      StartProcess startCommand None (Some (simProcess 1 startCommand)),
      WaitForPort (simProcess 1 startCommand) 18789 180000 True,
      GetLogs (simProcess 1 startCommand) True] \<and>
   ready_checked simImports (simProcess 1 startCommand)
     (calls (ensureMoltbotGateway simImports (sim True True (js ''aaaa'')) env0) (world0 [gatewayProc])) \<and>
   outcome (restartMoltbotGateway simImports (sim True True []) env0) (world0 [gatewayProc]) =
     Inr (simProcess 0 startCommand) \<and>
   ready_checked simImports (simProcess 0 startCommand)
     (calls (restartMoltbotGateway simImports (sim True True []) env0) (world0 [gatewayProc]))"
proof -
  have e: "outcome (ensureMoltbotGateway simImports (sim True True (js ''aaaa'')) env0) (world0 [gatewayProc]) =
     Inr (simProcess 1 startCommand)"
    by (simp add: outcome_def ensure_sim_stale)
  have r: "outcome (restartMoltbotGateway simImports (sim True True []) env0) (world0 [gatewayProc]) =
     Inr (simProcess 0 startCommand)"
    by (simp add: outcome_def restart_sim_run)
  have c: "calls (ensureMoltbotGateway simImports (sim True True (js ''aaaa'')) env0) (world0 [gatewayProc]) =
     [MountR2Storage, ListProcesses (Some [gatewayProc]),
      StartProcess readHashCommand None (Some (simProcess 1 readHashCommand)),
      SetTimeout 500, GetLogs (simProcess 1 readHashCommand) True,
      Kill gatewayProc True, SetTimeout 2000,
      StartProcess startCommand None (Some (simProcess 1 startCommand)),
      WaitForPort (simProcess 1 startCommand) 18789 180000 True,
      GetLogs (simProcess 1 startCommand) True]"
    by (simp add: calls_def ensure_sim_stale)
  from gateway_call_order [of simImports "sim True True (js ''aaaa'')" env0 "world0 [gatewayProc]"] e
  have "ready_checked simImports (simProcess 1 startCommand)
     (calls (ensureMoltbotGateway simImports (sim True True (js ''aaaa'')) env0) (world0 [gatewayProc]))"
    by blast
  moreover from gateway_call_order [of simImports "sim True True []" env0 "world0 [gatewayProc]"] r
  have "ready_checked simImports (simProcess 0 startCommand)
     (calls (restartMoltbotGateway simImports (sim True True []) env0) (world0 [gatewayProc]))"
    by blast
  ultimately show ?thesis using e r c by blast
qed

text \<open>
  C8, with the storage mount as the first step, fails: on a sandbox with a running
  gateway the restart lists the processes and kills the gateway before it mounts the
  storage.
\<close>

theorem restart_mount_not_first:
  "\<not> mount_precedes_locate
       (calls (restartMoltbotGateway simImports (sim True True []) env0) (world0 [gatewayProc]))"
  by (simp add: calls_def restart_sim_run mount_precedes_locate_def isList_def isKill_def)

text \<open>
  C8, amended. Every run of \<open>restartMoltbotGateway\<close> makes the calls of the restart
  script, in its order: it lists the processes, kills the located gateway whatever its
  fingerprint (the read command of the version check is never started), then mounts
  the storage, starts the gateway and waits for readiness; it returns the started handle
  exactly when the start, the readiness wait and the final log retrieval succeeded.
\<close>

theorem restart_unconditional:
  "\<exists>listed killOk started waitOk logsOk.
     calls (restartMoltbotGateway imp sb env) w =
       restartScript imp env listed killOk started waitOk logsOk \<and>
     (\<forall>h. (outcome (restartMoltbotGateway imp sb env) w = Inr h) =
            (started = Some h \<and> waitOk \<and> logsOk))"
proof -
  from sat_observed [OF restart_script_sat [of imp sb env], of w]
  obtain listed killOk started waitOk logsOk where
    t: "calls (restartMoltbotGateway imp sb env) w =
          restartScript imp env listed killOk started waitOk logsOk"
    and r: "case outcome (restartMoltbotGateway imp sb env) w of
              Inl e \<Rightarrow> started = None \<or> \<not> waitOk \<or> \<not> logsOk
            | Inr h \<Rightarrow> started = Some h \<and> waitOk \<and> logsOk"
    unfolding restart_post_def by blast
  from r have "\<forall>h. (outcome (restartMoltbotGateway imp sb env) w = Inr h) =
                   (started = Some h \<and> waitOk \<and> logsOk)"
    by (cases "outcome (restartMoltbotGateway imp sb env) w") auto
  with t show ?thesis by blast
qed

theorem restart_unconditional_witness:
  "calls (restartMoltbotGateway simImports (sim True True []) env0) (world0 [gatewayProc]) =
     restartScript simImports env0 (Some [gatewayProc]) True (Some (simProcess 0 startCommand)) True True \<and>
   located (Some [gatewayProc]) = Some gatewayProc \<and>
   outcome (restartMoltbotGateway simImports (sim True True []) env0) (world0 [gatewayProc]) =
     Inr (simProcess 0 startCommand)"
  using restart_unconditional [of simImports "sim True True []" env0 "world0 [gatewayProc]"]
  by (simp add: calls_def outcome_def restart_sim_run restartScript_def located_def
      findLoop_find envOption_def)

section \<open>The reuse path\<close>

lemma mount_run:
  "mountR2Storage imp env w =
     (Inr (), \<lparr>trace = trace w @ [MountR2Storage], sbstate = imp_mountR2Storage imp env (sbstate w)\<rparr>)"
  by (simp add: mountR2Storage_def call_def)

lemma version_current_trace:
  assumes "outcome (isGatewayCurrentVersion sb env) w = Inr vc" "current vc"
  shows "\<exists>q. trace (after (isGatewayCurrentVersion sb env) w) =
           trace w @ [StartProcess readHashCommand None (Some q), SetTimeout 500, GetLogs q True]"
  using assms
  by (auto simp: outcome_def after_def isGatewayCurrentVersion_def prim_defs run_defs Let_def
      value_of_def succeeded_def split: prod.splits sum.splits if_splits)

lemma wait_ok_trace:
  assumes "outcome (waitForPort sb p port timeout) w = Inr ()"
  shows "trace (after (waitForPort sb p port timeout) w) = trace w @ [WaitForPort p port timeout True]"
  using assms
  by (auto simp: outcome_def after_def waitForPort_def call_def succeeded_def split: prod.splits)

lemma reuse_run:
  assumes "w1 = after (mountR2Storage imp env) w"
      and "w2 = after (findExistingMoltbotProcess sb) w1"
      and "w3 = after (isGatewayCurrentVersion sb env) w2"
      and located: "outcome (findExistingMoltbotProcess sb) w1 = Inr (Some p)"
      and checked: "outcome (isGatewayCurrentVersion sb env) w2 = Inr vc" "current vc"
      and reachable: "outcome (waitForPort sb p (MOLTBOT_PORT imp) (STARTUP_TIMEOUT_MS imp)) w3 = Inr ()"
  shows "ensureMoltbotGateway imp sb env w =
           (Inr p, after (waitForPort sb p (MOLTBOT_PORT imp) (STARTUP_TIMEOUT_MS imp)) w3)"
    and "\<exists>listed q. calls (ensureMoltbotGateway imp sb env) w =
           [MountR2Storage, ListProcesses listed, StartProcess readHashCommand None (Some q),
            SetTimeout 500, GetLogs q True,
            WaitForPort p (MOLTBOT_PORT imp) (STARTUP_TIMEOUT_MS imp) True]"
proof -
  have m: "mountR2Storage imp env w = (Inr (), w1)"
    by (simp add: assms(1) after_def mount_run)
  have f: "findExistingMoltbotProcess sb w1 = (Inr (Some p), w2)"
    using located by (simp add: assms(2) after_def outcome_def prod_eq_iff)
  have v: "isGatewayCurrentVersion sb env w2 = (Inr vc, w3)"
    using checked(1) by (simp add: assms(3) after_def outcome_def prod_eq_iff)
  have r: "waitForPort sb p (MOLTBOT_PORT imp) (STARTUP_TIMEOUT_MS imp) w3 =
      (Inr (), after (waitForPort sb p (MOLTBOT_PORT imp) (STARTUP_TIMEOUT_MS imp)) w3)"
    using reachable by (simp add: after_def outcome_def prod_eq_iff)
  show run: "ensureMoltbotGateway imp sb env w =
           (Inr p, after (waitForPort sb p (MOLTBOT_PORT imp) (STARTUP_TIMEOUT_MS imp)) w3)"
    by (simp add: ensureMoltbotGateway_def await_def try_catch_def ret_def m f v r checked(2))
  have t1: "trace w1 = trace w @ [MountR2Storage]"
    by (simp add: assms(1) after_def mount_run)
  obtain listed where t2: "trace w2 = trace w1 @ [ListProcesses listed]"
    by (simp add: assms(2) after_def findExisting_run)
  obtain q where t3: "trace w3 = trace w2 @
      [StartProcess readHashCommand None (Some q), SetTimeout 500, GetLogs q True]"
    using version_current_trace [OF checked] assms(3) by auto
  have t4: "trace (after (waitForPort sb p (MOLTBOT_PORT imp) (STARTUP_TIMEOUT_MS imp)) w3) =
      trace w3 @ [WaitForPort p (MOLTBOT_PORT imp) (STARTUP_TIMEOUT_MS imp) True]"
    by (rule wait_ok_trace [OF reachable])
  have "calls (ensureMoltbotGateway imp sb env) w =
           [MountR2Storage, ListProcesses listed, StartProcess readHashCommand None (Some q),
            SetTimeout 500, GetLogs q True,
            WaitForPort p (MOLTBOT_PORT imp) (STARTUP_TIMEOUT_MS imp) True]"
    by (simp add: calls_def run t1 t2 t3 t4)
  then show "\<exists>listed q. calls (ensureMoltbotGateway imp sb env) w =
           [MountR2Storage, ListProcesses listed, StartProcess readHashCommand None (Some q),
            SetTimeout 500, GetLogs q True,
            WaitForPort p (MOLTBOT_PORT imp) (STARTUP_TIMEOUT_MS imp) True]"
    by blast
qed


lemma ensure_sim_reuse:
  "ensureMoltbotGateway simImports (sim True True (computeConfigHash env0)) env0 (world0 [gatewayProc]) =
     (Inr gatewayProc,
      \<lparr>trace = [MountR2Storage, ListProcesses (Some [gatewayProc]),
                StartProcess readHashCommand None (Some (simProcess 1 readHashCommand)),
                SetTimeout 500, GetLogs (simProcess 1 readHashCommand) True,
                WaitForPort gatewayProc 18789 180000 True],
       sbstate = [gatewayProc, simProcess 1 readHashCommand]\<rparr>)"
  by (simp add: ensureMoltbotGateway_def sim_run_defs computeConfigHash_not_empty or_else_def)

lemma ensure_sim_fresh:
  "ensureMoltbotGateway simImports (sim True True (computeConfigHash env0)) env0 (world0 []) =
     (Inr (simProcess 0 startCommand),
      \<lparr>trace = [MountR2Storage, ListProcesses (Some []),
                StartProcess startCommand None (Some (simProcess 0 startCommand)),
                WaitForPort (simProcess 0 startCommand) 18789 180000 True,
                GetLogs (simProcess 0 startCommand) True],
       sbstate = [simProcess 0 startCommand]\<rparr>)"
  by (simp add: ensureMoltbotGateway_def sim_run_defs)

lemma ensure_sim_timeout:
  "ensureMoltbotGateway simImports (sim False True []) env0 (world0 []) =
     (Inl (Error (js ''timeout'')),
      \<lparr>trace = [MountR2Storage, ListProcesses (Some []),
                StartProcess startCommand None (Some (simProcess 0 startCommand)),
                WaitForPort (simProcess 0 startCommand) 18789 180000 False,
                GetLogs (simProcess 0 startCommand) True],
       sbstate = [simProcess 0 startCommand]\<rparr>)"
  by (simp add: ensureMoltbotGateway_def sim_run_defs)

lemma ensure_sim_nologs:
  "ensureMoltbotGateway simImports (sim True False []) env0 (world0 []) =
     (Inl (Error (js ''no logs'')),
      \<lparr>trace = [MountR2Storage, ListProcesses (Some []),
                StartProcess startCommand None (Some (simProcess 0 startCommand)),
                WaitForPort (simProcess 0 startCommand) 18789 180000 True,
                GetLogs (simProcess 0 startCommand) False,
                GetLogs (simProcess 0 startCommand) False],
       sbstate = [simProcess 0 startCommand]\<rparr>)"
  by (simp add: ensureMoltbotGateway_def sim_run_defs)

lemma restart_sim_nologs:
  "restartMoltbotGateway simImports (sim True False []) env0 (world0 []) =
     (Inl (Error (js ''no logs'')),
      \<lparr>trace = [ListProcesses (Some []), MountR2Storage,
                StartProcess startCommand None (Some (simProcess 0 startCommand)),
                WaitForPort (simProcess 0 startCommand) 18789 180000 True,
                GetLogs (simProcess 0 startCommand) False],
       sbstate = [simProcess 0 startCommand]\<rparr>)"
  by (simp add: restartMoltbotGateway_def sim_run_defs)

lemma ensure_sim_nofile_first:
  "ensureMoltbotGateway simImports (sim True True []) env0 (world0 []) =
     (Inr (simProcess 0 startCommand),
      \<lparr>trace = [MountR2Storage, ListProcesses (Some []),
                StartProcess startCommand None (Some (simProcess 0 startCommand)),
                WaitForPort (simProcess 0 startCommand) 18789 180000 True,
                GetLogs (simProcess 0 startCommand) True],
       sbstate = [simProcess 0 startCommand]\<rparr>)"
  by (simp add: ensureMoltbotGateway_def sim_run_defs)

lemma ensure_sim_nofile_second:
  "ensureMoltbotGateway simImports (sim True True []) env0
     \<lparr>trace = t, sbstate = [simProcess 0 startCommand]\<rparr> =
     (Inr (simProcess 1 startCommand),
      \<lparr>trace = t @
         [MountR2Storage, ListProcesses (Some [simProcess 0 startCommand]),
          StartProcess readHashCommand None (Some (simProcess 1 readHashCommand)),
          SetTimeout 500, GetLogs (simProcess 1 readHashCommand) True,
          Kill (simProcess 0 startCommand) True, SetTimeout 2000,
          StartProcess startCommand None (Some (simProcess 1 startCommand)),
          WaitForPort (simProcess 1 startCommand) 18789 180000 True,
          GetLogs (simProcess 1 startCommand) True],
       sbstate = [simProcess 1 readHashCommand, simProcess 1 startCommand]\<rparr>)"
  by (simp add: ensureMoltbotGateway_def sim_run_defs trim_newline or_else_def)

lemma boom_literal:
  "js ''timeout'' \<noteq> js ''Moltbot gateway failed to start. Stderr: '' @ js ''boom''"
  by (simp add: js_def)

text \<open>
  C6, with "no process start is invoked", fails: on the reuse path (a running gateway
  with the current fingerprint and a reachable port, the located handle returned) the
  version check starts the read command through the sandbox, so the run does start a
  process.
\<close>

theorem reuse_starts_read_command:
  "outcome (ensureMoltbotGateway simImports (sim True True (computeConfigHash env0)) env0)
     (world0 [gatewayProc]) = Inr gatewayProc \<and>
   list_ex isStart
     (calls (ensureMoltbotGateway simImports (sim True True (computeConfigHash env0)) env0)
        (world0 [gatewayProc])) \<and>
   filter isStart
     (calls (ensureMoltbotGateway simImports (sim True True (computeConfigHash env0)) env0)
        (world0 [gatewayProc])) =
     [StartProcess readHashCommand None (Some (simProcess 1 readHashCommand))]"
  by (simp add: outcome_def calls_def ensure_sim_reuse isStart_def)

text \<open>
  C6, amended. When the located process has the current fingerprint and its port becomes
  reachable, \<open>ensureMoltbotGateway\<close> returns the located handle itself. Its calls are the
  mount, the listing, the read of the fingerprint (start of the read command, settle
  delay, logs) and one readiness wait on the gateway port with the startup timeout,
  whatever the status of the process: no kill, and no start of the gateway; the one
  process it starts is the read command of the version check.
\<close>

theorem ensure_reuse:
  assumes "w1 = after (mountR2Storage imp env) w"
      and "w2 = after (findExistingMoltbotProcess sb) w1"
      and "w3 = after (isGatewayCurrentVersion sb env) w2"
      and "outcome (findExistingMoltbotProcess sb) w1 = Inr (Some p)"
      and "outcome (isGatewayCurrentVersion sb env) w2 = Inr vc" and "current vc"
      and "outcome (waitForPort sb p (MOLTBOT_PORT imp) (STARTUP_TIMEOUT_MS imp)) w3 = Inr ()"
  shows "outcome (ensureMoltbotGateway imp sb env) w = Inr p \<and>
         (\<exists>listed q. calls (ensureMoltbotGateway imp sb env) w =
            [MountR2Storage, ListProcesses listed, StartProcess readHashCommand None (Some q),
             SetTimeout 500, GetLogs q True,
             WaitForPort p (MOLTBOT_PORT imp) (STARTUP_TIMEOUT_MS imp) True]) \<and>
         \<not> list_ex isKill (calls (ensureMoltbotGateway imp sb env) w) \<and>
         \<not> list_ex isGatewayStart (calls (ensureMoltbotGateway imp sb env) w)"
proof -
  from reuse_run(2) [OF assms] obtain listed q where
    c: "calls (ensureMoltbotGateway imp sb env) w =
            [MountR2Storage, ListProcesses listed, StartProcess readHashCommand None (Some q),
             SetTimeout 500, GetLogs q True,
             WaitForPort p (MOLTBOT_PORT imp) (STARTUP_TIMEOUT_MS imp) True]"
    by blast
  have "outcome (ensureMoltbotGateway imp sb env) w = Inr p"
    by (simp add: outcome_def reuse_run(1) [OF assms])
  moreover have "\<not> list_ex isKill (calls (ensureMoltbotGateway imp sb env) w)"
    by (simp add: c isKill_def)
  moreover have "\<not> list_ex isGatewayStart (calls (ensureMoltbotGateway imp sb env) w)"
    by (simp add: c isGatewayStart_def)
  ultimately show ?thesis using c by blast
qed

theorem ensure_reuse_witness:
  "status gatewayProc = js ''running'' \<and>
   outcome (ensureMoltbotGateway simImports (sim True True (computeConfigHash env0)) env0)
     (world0 [gatewayProc]) = Inr gatewayProc \<and>
   calls (ensureMoltbotGateway simImports (sim True True (computeConfigHash env0)) env0)
     (world0 [gatewayProc]) =
     [MountR2Storage, ListProcesses (Some [gatewayProc]),
      StartProcess readHashCommand None (Some (simProcess 1 readHashCommand)),
      SetTimeout 500, GetLogs (simProcess 1 readHashCommand) True,
      WaitForPort gatewayProc 18789 180000 True]"
proof -
  let ?sb = "sim True True (computeConfigHash env0)"
  let ?w1 = "after (mountR2Storage simImports env0) (world0 [gatewayProc])"
  let ?w2 = "after (findExistingMoltbotProcess ?sb) ?w1"
  let ?w3 = "after (isGatewayCurrentVersion ?sb env0) ?w2"
  let ?vc = "\<lparr>current = True, expectedHash = computeConfigHash env0,
               runningHash = Some (computeConfigHash env0), reason = None\<rparr>"
  have located: "outcome (findExistingMoltbotProcess ?sb) ?w1 = Inr (Some gatewayProc)"
    by (simp add: outcome_def after_def mount_run findExisting_run located_def value_of_def findLoop_find)
  have checked: "outcome (isGatewayCurrentVersion ?sb env0) ?w2 = Inr ?vc"
    by (simp add: version_run computeConfigHash_not_empty)
  have reachable: "outcome (waitForPort ?sb gatewayProc (MOLTBOT_PORT simImports)
      (STARTUP_TIMEOUT_MS simImports)) ?w3 = Inr ()"
    by (simp add: outcome_def waitForPort_def call_def)
  have "current ?vc" by simp
  from ensure_reuse [OF refl refl refl located checked this reachable]
  have "outcome (ensureMoltbotGateway simImports ?sb env0) (world0 [gatewayProc]) = Inr gatewayProc"
    by blast
  moreover have "status gatewayProc = js ''running''" by (simp add: gatewayProc_def)
  moreover have "calls (ensureMoltbotGateway simImports ?sb env0) (world0 [gatewayProc]) =
     [MountR2Storage, ListProcesses (Some [gatewayProc]),
      StartProcess readHashCommand None (Some (simProcess 1 readHashCommand)),
      SetTimeout 500, GetLogs (simProcess 1 readHashCommand) True,
      WaitForPort gatewayProc 18789 180000 True]"
    by (simp add: calls_def ensure_sim_reuse)
  ultimately show ?thesis by blast
qed

text \<open>
  C9, as an unconditional statement about a first call that succeeded and left the
  started process live and reachable, fails. On a sandbox whose gateway writes no
  fingerprint file, the first call starts the gateway and returns it; the process is
  then listed as live and its port is reachable; the second call, with the same
  configuration, reads no fingerprint, kills the gateway and starts another one, and
  returns the new handle. The two calls start the gateway twice (and three processes
  in all).
\<close>

theorem second_call_restarts:
  "outcome (ensureMoltbotGateway simImports (sim True True []) env0) (world0 []) =
     Inr (simProcess 0 startCommand) \<and>
   outcome (findExistingMoltbotProcess (sim True True []))
     (after (mountR2Storage simImports env0)
        (after (ensureMoltbotGateway simImports (sim True True []) env0) (world0 []))) =
     Inr (Some (simProcess 0 startCommand)) \<and>
   outcome (waitForPort (sim True True []) (simProcess 0 startCommand) 18789 180000)
     (after (ensureMoltbotGateway simImports (sim True True []) env0) (world0 [])) = Inr () \<and>
   outcome (ensureMoltbotGateway simImports (sim True True []) env0)
     (after (ensureMoltbotGateway simImports (sim True True []) env0) (world0 [])) =
     Inr (simProcess 1 startCommand) \<and>
   length (filter isGatewayStart
     (calls (ensureMoltbotGateway simImports (sim True True []) env0) (world0 []) @
      calls (ensureMoltbotGateway simImports (sim True True []) env0)
        (after (ensureMoltbotGateway simImports (sim True True []) env0) (world0 [])))) = 2 \<and>
   length (filter isStart
     (calls (ensureMoltbotGateway simImports (sim True True []) env0) (world0 []) @
      calls (ensureMoltbotGateway simImports (sim True True []) env0)
        (after (ensureMoltbotGateway simImports (sim True True []) env0) (world0 [])))) = 3"
  by (simp add: outcome_def calls_def after_def ensure_sim_nofile_first ensure_sim_nofile_second
      mount_run findExisting_run located_def value_of_def findLoop_find waitForPort_def call_def
      isGatewayStart_def isStart_def)

text \<open>
  C9, amended. Let a first call of \<open>ensureMoltbotGateway\<close> return a handle, and let the
  sandbox after it locate that handle, report the current fingerprint (the gateway has
  persisted the fingerprint of the unchanged configuration) and have the port
  reachable. Then a second call with the same configuration returns the same handle
  and starts no gateway; the one process it starts is the read command of the version
  check; and both calls together start the gateway at most once.
\<close>

theorem ensure_twice:
  assumes "outcome (ensureMoltbotGateway imp sb env) w = Inr p"
      and "w' = after (ensureMoltbotGateway imp sb env) w"
      and "w1 = after (mountR2Storage imp env) w'"
      and "w2 = after (findExistingMoltbotProcess sb) w1"
      and "w3 = after (isGatewayCurrentVersion sb env) w2"
      and "outcome (findExistingMoltbotProcess sb) w1 = Inr (Some p)"
      and "outcome (isGatewayCurrentVersion sb env) w2 = Inr vc" and "current vc"
      and "outcome (waitForPort sb p (MOLTBOT_PORT imp) (STARTUP_TIMEOUT_MS imp)) w3 = Inr ()"
  shows "outcome (ensureMoltbotGateway imp sb env) w' = Inr p \<and>
         \<not> list_ex isGatewayStart (calls (ensureMoltbotGateway imp sb env) w') \<and>
         (\<exists>q. filter isStart (calls (ensureMoltbotGateway imp sb env) w') =
                [StartProcess readHashCommand None (Some q)]) \<and>
         length (filter isGatewayStart
                  (calls (ensureMoltbotGateway imp sb env) w @
                   calls (ensureMoltbotGateway imp sb env) w')) \<le> 1"
proof -
  from reuse_run(2) [OF assms(3-9)] obtain listed q where
    c: "calls (ensureMoltbotGateway imp sb env) w' =
            [MountR2Storage, ListProcesses listed, StartProcess readHashCommand None (Some q),
             SetTimeout 500, GetLogs q True,
             WaitForPort p (MOLTBOT_PORT imp) (STARTUP_TIMEOUT_MS imp) True]"
    by blast
  have second: "outcome (ensureMoltbotGateway imp sb env) w' = Inr p"
    by (simp add: outcome_def reuse_run(1) [OF assms(3-9)])
  have none: "filter isGatewayStart (calls (ensureMoltbotGateway imp sb env) w') = []"
    by (simp add: c isGatewayStart_def)
  have first: "length (filter isGatewayStart (calls (ensureMoltbotGateway imp sb env) w)) \<le> 1"
    using sat_observed [OF ensure_sat [of imp sb env], of w] by simp
  have nogw: "\<not> list_ex isGatewayStart (calls (ensureMoltbotGateway imp sb env) w')"
    by (simp add: c isGatewayStart_def)
  have "filter isStart (calls (ensureMoltbotGateway imp sb env) w') =
      [StartProcess readHashCommand None (Some q)]"
    by (simp add: c isStart_def)
  then have one: "\<exists>q. filter isStart (calls (ensureMoltbotGateway imp sb env) w') =
      [StartProcess readHashCommand None (Some q)]"
    by blast
  have total: "length (filter isGatewayStart
                  (calls (ensureMoltbotGateway imp sb env) w @
                   calls (ensureMoltbotGateway imp sb env) w')) \<le> 1"
    using first none by simp
  from second nogw one total show ?thesis by blast
qed

theorem ensure_twice_witness:
  "outcome (ensureMoltbotGateway simImports (sim True True (computeConfigHash env0)) env0) (world0 []) =
     Inr (simProcess 0 startCommand) \<and>
   outcome (ensureMoltbotGateway simImports (sim True True (computeConfigHash env0)) env0)
     (after (ensureMoltbotGateway simImports (sim True True (computeConfigHash env0)) env0) (world0 [])) =
     Inr (simProcess 0 startCommand) \<and>
   length (filter isGatewayStart
     (calls (ensureMoltbotGateway simImports (sim True True (computeConfigHash env0)) env0) (world0 []) @
      calls (ensureMoltbotGateway simImports (sim True True (computeConfigHash env0)) env0)
        (after (ensureMoltbotGateway simImports (sim True True (computeConfigHash env0)) env0)
           (world0 [])))) \<le> 1"
proof -
  let ?sb = "sim True True (computeConfigHash env0)"
  let ?p = "simProcess 0 startCommand"
  let ?w' = "after (ensureMoltbotGateway simImports ?sb env0) (world0 [])"
  let ?w1 = "after (mountR2Storage simImports env0) ?w'"
  let ?w2 = "after (findExistingMoltbotProcess ?sb) ?w1"
  let ?w3 = "after (isGatewayCurrentVersion ?sb env0) ?w2"
  let ?vc = "\<lparr>current = True, expectedHash = computeConfigHash env0,
               runningHash = Some (computeConfigHash env0), reason = None\<rparr>"
  have first: "outcome (ensureMoltbotGateway simImports ?sb env0) (world0 []) = Inr ?p"
    by (simp add: outcome_def ensure_sim_fresh)
  have located: "outcome (findExistingMoltbotProcess ?sb) ?w1 = Inr (Some ?p)"
    by (simp add: outcome_def after_def ensure_sim_fresh mount_run findExisting_run located_def
        value_of_def findLoop_find)
  have checked: "outcome (isGatewayCurrentVersion ?sb env0) ?w2 = Inr ?vc"
    by (simp add: version_run computeConfigHash_not_empty)
  have reachable: "outcome (waitForPort ?sb ?p (MOLTBOT_PORT simImports)
      (STARTUP_TIMEOUT_MS simImports)) ?w3 = Inr ()"
    by (simp add: outcome_def waitForPort_def call_def)
  have "current ?vc" by simp
  from ensure_twice [OF first refl refl refl refl located checked this reachable] first
  show ?thesis by blast
qed

text \<open>
  The fresh start in general: when no process is located, the start succeeds and the
  readiness wait rejects, \<open>ensureMoltbotGateway\<close> rejects with the error of the wait,
  whatever the log retrieval returns. When the wait succeeds and the log retrieval
  rejects, it rejects with the error of the log retrieval.
\<close>

lemma fresh_start_wait_rejects:
  assumes "w1 = after (mountR2Storage imp env) w"
      and "w2 = after (findExistingMoltbotProcess sb) w1"
      and "w3 = after (startProcess sb startCommand (envOption (buildEnvVars imp env))) w2"
      and absent: "outcome (findExistingMoltbotProcess sb) w1 = Inr None"
      and started: "outcome (startProcess sb startCommand (envOption (buildEnvVars imp env))) w2 = Inr process"
      and timeout: "outcome (waitForPort sb process (MOLTBOT_PORT imp) (STARTUP_TIMEOUT_MS imp)) w3 = Inl e"
  shows "outcome (ensureMoltbotGateway imp sb env) w = Inl e"
proof -
  have m: "mountR2Storage imp env w = (Inr (), w1)"
    by (simp add: assms(1) after_def mount_run)
  have f: "findExistingMoltbotProcess sb w1 = (Inr None, w2)"
    using absent by (simp add: assms(2) after_def outcome_def prod_eq_iff)
  have s: "startProcess sb startCommand (envOption (buildEnvVars imp env)) w2 = (Inr process, w3)"
    using started by (simp add: assms(3) after_def outcome_def prod_eq_iff)
  have r: "waitForPort sb process (MOLTBOT_PORT imp) (STARTUP_TIMEOUT_MS imp) w3 =
      (Inl e, after (waitForPort sb process (MOLTBOT_PORT imp) (STARTUP_TIMEOUT_MS imp)) w3)"
    using timeout by (simp add: after_def outcome_def prod_eq_iff)
  show ?thesis
    by (simp add: outcome_def ensureMoltbotGateway_def await_def try_catch_def ret_def throw_def
        m f s r split: prod.splits sum.splits)
qed

lemma fresh_start_logs_reject:
  assumes "w1 = after (mountR2Storage imp env) w"
      and "w2 = after (findExistingMoltbotProcess sb) w1"
      and "w3 = after (startProcess sb startCommand (envOption (buildEnvVars imp env))) w2"
      and "w4 = after (waitForPort sb process (MOLTBOT_PORT imp) (STARTUP_TIMEOUT_MS imp)) w3"
      and absent: "outcome (findExistingMoltbotProcess sb) w1 = Inr None"
      and started: "outcome (startProcess sb startCommand (envOption (buildEnvVars imp env))) w2 = Inr process"
      and ready: "outcome (waitForPort sb process (MOLTBOT_PORT imp) (STARTUP_TIMEOUT_MS imp)) w3 = Inr ()"
      and nologs: "outcome (getLogs sb process) w4 = Inl e"
  shows "outcome (ensureMoltbotGateway imp sb env) w = Inl e"
proof -
  have m: "mountR2Storage imp env w = (Inr (), w1)"
    by (simp add: assms(1) after_def mount_run)
  have f: "findExistingMoltbotProcess sb w1 = (Inr None, w2)"
    using absent by (simp add: assms(2) after_def outcome_def prod_eq_iff)
  have s: "startProcess sb startCommand (envOption (buildEnvVars imp env)) w2 = (Inr process, w3)"
    using started by (simp add: assms(3) after_def outcome_def prod_eq_iff)
  have r: "waitForPort sb process (MOLTBOT_PORT imp) (STARTUP_TIMEOUT_MS imp) w3 = (Inr (), w4)"
    using ready by (simp add: assms(4) after_def outcome_def prod_eq_iff)
  have l: "getLogs sb process w4 = (Inl e, after (getLogs sb process) w4)"
    using nologs by (simp add: after_def outcome_def prod_eq_iff)
  show ?thesis
    by (simp add: outcome_def ensureMoltbotGateway_def await_def try_catch_def ret_def throw_def
        m f s r l split: prod.splits sum.splits)
qed

text \<open>
  C1 fails on the code. The sandbox starts the gateway, the readiness wait rejects with
  \<open>timeout\<close>, and the log retrieval succeeds with \<open>boom\<close> on the error stream: the error
  built from the error stream is thrown inside the \<open>try\<close> whose \<open>catch\<close> rethrows the
  original error, so the caller receives \<open>timeout\<close>.
\<close>

theorem fresh_start_timeout_rethrown:
  "calls (ensureMoltbotGateway simImports (sim False True []) env0) (world0 []) =
     [MountR2Storage, ListProcesses (Some []),
      StartProcess startCommand None (Some (simProcess 0 startCommand)),
      WaitForPort (simProcess 0 startCommand) 18789 180000 False,
      GetLogs (simProcess 0 startCommand) True] \<and>
   stderr (simLogs [] (simProcess 0 startCommand)) = Some (js ''boom'') \<and>
   outcome (ensureMoltbotGateway simImports (sim False True []) env0) (world0 []) =
     Inl (Error (js ''timeout'')) \<and>
   outcome (ensureMoltbotGateway simImports (sim False True []) env0) (world0 []) \<noteq>
     Inl (Error (js ''Moltbot gateway failed to start. Stderr: '' @ js ''boom''))"
  by (simp add: calls_def outcome_def ensure_sim_timeout simLogs_def boom_literal)

text \<open>
  C2 fails on the code. The sandbox starts the gateway and the readiness wait succeeds,
  but the log retrieval rejects with \<open>no logs\<close>: \<open>ensureMoltbotGateway\<close> and
  \<open>restartMoltbotGateway\<close> both reject with that error.
\<close>

theorem logs_failure_propagates:
  "calls (ensureMoltbotGateway simImports (sim True False []) env0) (world0 []) =
     [MountR2Storage, ListProcesses (Some []),
      StartProcess startCommand None (Some (simProcess 0 startCommand)),
      WaitForPort (simProcess 0 startCommand) 18789 180000 True,
      GetLogs (simProcess 0 startCommand) False,
      GetLogs (simProcess 0 startCommand) False] \<and>
   outcome (ensureMoltbotGateway simImports (sim True False []) env0) (world0 []) =
     Inl (Error (js ''no logs'')) \<and>
   calls (restartMoltbotGateway simImports (sim True False []) env0) (world0 []) =
     [ListProcesses (Some []), MountR2Storage,
      StartProcess startCommand None (Some (simProcess 0 startCommand)),
      WaitForPort (simProcess 0 startCommand) 18789 180000 True,
      GetLogs (simProcess 0 startCommand) False] \<and>
   outcome (restartMoltbotGateway simImports (sim True False []) env0) (world0 []) =
     Inl (Error (js ''no logs''))"
  by (simp add: calls_def outcome_def ensure_sim_nologs restart_sim_nologs)

end
